theory Spec2Isabelle
  imports Main "HOL-Library.Word"
begin

unbundle bit_operations_syntax

section \<open>The valid-lexical-scope rule of eslint-plugin-qwik\<close>

text \<open>
  A shallow embedding of \<^verbatim>\<open>packages/eslint-plugin-qwik/src/validLexicalScope.ts\<close>.
  The rule consumes three collaborators that are not part of the file: the TypeScript
  type checker, the ESLint scope manager and the ESLint report sink. Their answers are
  data of the model (records of fields and functions), and the rule's own functions are
  translated one by one. A thrown JavaScript exception is a value: \<open>Inl TypeError\<close> as the
  result of the classifier, \<open>Some TypeError\<close> beside the reports of the walker and of the
  visitors. The calls of \<^verbatim>\<open>context.report\<close> are collected in a list, in the order in which
  they are made; the reports made before an exception stay in the list.
\<close>

subsection \<open>JavaScript strings\<close>

definition endsWith :: "string \<Rightarrow> string \<Rightarrow> bool" where
  "endsWith s t = (length t \<le> length s \<and> drop (length s - length t) s = t)"

definition startsWith :: "string \<Rightarrow> string \<Rightarrow> bool" where
  "startsWith s t = (take (length t) s = t)"

text \<open>\<^verbatim>\<open>s.slice(a, b)\<close> for indices that are not negative.\<close>

definition slice :: "string \<Rightarrow> nat \<Rightarrow> nat \<Rightarrow> string" where
  "slice s a b = take (b - a) (drop a s)"

text \<open>The truth value JavaScript gives an optional string: undefined and the empty string are falsy.\<close>

definition truthy :: "string option \<Rightarrow> bool" where
  "truthy v = (case v of None \<Rightarrow> False | Some s \<Rightarrow> s \<noteq> [])"

subsection \<open>The type checker's answers\<close>

text \<open>
  The bits of \<^verbatim>\<open>ts.TypeFlags\<close> the rule reads, with the values of the TypeScript
  compiler API. \<^verbatim>\<open>EnumLiteral\<close> and \<^verbatim>\<open>NumberLiteral\<close> are not read by the rule; they are
  the flags TypeScript gives the type of an enum member such as \<^verbatim>\<open>Color.Red\<close>.
\<close>

definition TypeFlags_Any :: "32 word" where "TypeFlags_Any = 1"

definition TypeFlags_Unknown :: "32 word" where "TypeFlags_Unknown = 2"

definition TypeFlags_Number :: "32 word" where "TypeFlags_Number = 8"

definition TypeFlags_Enum :: "32 word" where "TypeFlags_Enum = 32"

definition TypeFlags_NumberLiteral :: "32 word" where "TypeFlags_NumberLiteral = 256"

definition TypeFlags_EnumLiteral :: "32 word" where "TypeFlags_EnumLiteral = 1024"

definition TypeFlags_ESSymbolLike :: "32 word" where "TypeFlags_ESSymbolLike = 12288"

definition TypeFlags_Undefined :: "32 word" where "TypeFlags_Undefined = 32768"

definition TypeFlags_Null :: "32 word" where "TypeFlags_Null = 65536"

definition TypeFlags_Object :: "32 word" where "TypeFlags_Object = 524288"

definition TypeFlags_Union :: "32 word" where "TypeFlags_Union = 1048576"

definition TypeFlags_EnumLike :: "32 word" where
  "TypeFlags_EnumLike = TypeFlags_Enum OR TypeFlags_EnumLiteral"

text \<open>A declaration node of a symbol: the source span \<^verbatim>\<open>decl.pos\<close> to \<^verbatim>\<open>decl.end\<close>.\<close>

record Declaration =
  pos :: nat
  dend :: nat

record tsSymbol =
  name :: string
  declarations :: "Declaration list option"
  valueDeclaration :: "Declaration option"

text \<open>
  A \<^verbatim>\<open>ts.Type\<close> object. The rule compares types by identity (the set \<^verbatim>\<open>seen\<close>), so a
  type is named by an identity of type \<open>'t\<close> and the checker maps the identity to the
  object's fields (\<open>typeObject\<close> below). \<^verbatim>\<open>type.symbol\<close> is declared non-optional by
  TypeScript but is undefined for intrinsic types such as \<^verbatim>\<open>number\<close>; the rule itself tests
  \<^verbatim>\<open>if (t.symbol)\<close> in its JSX handler, so the field is optional here. \<open>getProperty\<close> and
  \<open>getProperties\<close> are the answers of the methods of these names, \<open>getCallSignatures\<close> is
  the length of the array that the method returns, \<open>isUnion\<close>, \<open>isUnionOrIntersection\<close> and
  \<open>isClass\<close> are the answers of the predicates, and \<open>types\<close> are the identities of the
  members of a union or intersection.
\<close>

record 't tsType =
  flags :: "32 word"
  symbol :: "tsSymbol option"
  getProperty :: "string \<Rightarrow> tsSymbol option"
  getProperties :: "tsSymbol list"
  getCallSignatures :: nat
  isUnion :: bool
  isUnionOrIntersection :: bool
  types :: "'t list"
  isClass :: bool

text \<open>A \<^verbatim>\<open>ts.Node\<close>: its identity, whether \<^verbatim>\<open>ts.isIdentifier\<close> holds of it, and \<^verbatim>\<open>node.text\<close>.\<close>

record tsNode =
  tsNodeId :: nat
  isIdentifier :: bool
  nodeText :: string

record 't TypeChecker =
  typeObject :: "'t \<Rightarrow> 't tsType"
  getTypeAtLocation :: "tsNode \<Rightarrow> 't"
  typeToString :: "'t \<Rightarrow> string"
  getElementTypeOfArrayType :: "'t \<Rightarrow> 't option"
  isTupleType :: "'t \<Rightarrow> bool"
  getTypeArguments :: "'t \<Rightarrow> 't list"
  getTypeOfSymbolAtLocation :: "tsSymbol \<Rightarrow> tsNode \<Rightarrow> 't"

record DetectorOptions =
  allowAny :: bool

text \<open>
  What the classifier reads of the rule context: the text of the file. \<^verbatim>\<open>redent\<close> is the
  npm package the file imports; it is a parameter of the model.
\<close>

record RuleContext =
  sourceText :: string
  redent :: "string \<Rightarrow> nat \<Rightarrow> string"

record 't TypeReason =
  rtype :: 't
  typeStr :: string
  location :: "string option"
  reason :: string

datatype error = TypeError

subsection \<open>The suggestion text\<close>

text \<open>
  \<^verbatim>\<open>getContent\<close> slices the text of the first declaration out of the file, replaces the
  matches of \<^verbatim>\<open>/^\s*$/gm\<close> by the empty string and hands the text to \<^verbatim>\<open>redent\<close>. A character
  is a code unit below 256; of these, \<^verbatim>\<open>\s\<close> matches the seven below, and two of them are
  line terminators.
\<close>

definition isWhiteSpace :: "char \<Rightarrow> bool" where
  "isWhiteSpace c = (c \<in> set [CHR 0x09, CHR 0x0A, CHR 0x0B, CHR 0x0C, CHR 0x0D, CHR 0x20, CHR 0xA0])"

definition isLineTerminator :: "char \<Rightarrow> bool" where
  "isLineTerminator c = (c = CHR 0x0A \<or> c = CHR 0x0D)"

text \<open>
  The length of the match of \<^verbatim>\<open>/^\s*$/m\<close> at a line start: the longest run of white space
  that ends at the end of the text or in front of a line terminator (0 when there is
  none, or only the empty one).
\<close>

definition blankMatch :: "string \<Rightarrow> nat" where
  "blankMatch s =
     (let w = takeWhile isWhiteSpace s
      in if drop (length w) s = [] then length w
         else length (dropWhile (\<lambda>c. \<not> isLineTerminator c) (rev w)) - 1)"

text \<open>\<^verbatim>\<open>text.replace(/^\s*$/gm, '')\<close>; the flag says whether the position is a line start.\<close>

function replaceBlank :: "bool \<Rightarrow> string \<Rightarrow> string" where
  "replaceBlank atStart [] = []"
| "replaceBlank atStart (c # cs) =
     (if atStart
      then (case drop (blankMatch (c # cs)) (c # cs) of
              [] \<Rightarrow> []
            | d # ds \<Rightarrow> d # replaceBlank (isLineTerminator d) ds)
      else c # replaceBlank (isLineTerminator c) cs)"
  by pat_completeness auto

termination
proof (relation "measure (\<lambda>(b, s). length s)")
  fix atStart :: bool and c :: char and cs ds :: string and d :: char
  assume "drop (blankMatch (c # cs)) (c # cs) = d # ds"
  then have "length (d # ds) \<le> length (c # cs)"
    by (metis length_drop diff_le_self)
  then show "((isLineTerminator d, ds), atStart, c # cs) \<in> measure (\<lambda>(b, s). length s)"
    by simp
qed simp_all

definition getContent :: "RuleContext \<Rightarrow> tsSymbol \<Rightarrow> string" where
  "getContent ctx symb =
     (case declarations symb of
        Some (decl # ds) \<Rightarrow>
          redent ctx (replaceBlank True (slice (sourceText ctx) (pos decl) (dend decl))) 2
      | _ \<Rightarrow> [])"

subsection \<open>The classifier\<close>

definition isTypeQRL :: "'t tsType \<Rightarrow> bool" where
  "isTypeQRL ty = (flags ty AND TypeFlags_Any \<noteq> 0 \<or> getProperty ty ''__brand__QRL__'' \<noteq> None)"

text \<open>
  \<^verbatim>\<open>ALLOWED_CLASSES[symbolName]\<close>: the property read of a plain object literal. It finds the
  seven own keys, and also every property the literal inherits from
  \<^verbatim>\<open>Object.prototype\<close>, whose values (functions, and the prototype object for
  \<^verbatim>\<open>__proto__\<close>) are all truthy.
\<close>

definition ALLOWED_CLASSES_own :: "string list" where
  "ALLOWED_CLASSES_own =
     [''Promise'', ''URL'', ''RegExp'', ''Date'', ''FormData'', ''URLSearchParams'', ''Error'']"

definition Object_prototype_keys :: "string list" where
  "Object_prototype_keys =
     [''constructor'', ''hasOwnProperty'', ''isPrototypeOf'', ''propertyIsEnumerable'',
      ''toLocaleString'', ''toString'', ''valueOf'', ''__proto__'', ''__defineGetter__'',
      ''__defineSetter__'', ''__lookupGetter__'', ''__lookupSetter__'']"

definition ALLOWED_CLASSES :: "string \<Rightarrow> bool" where
  "ALLOWED_CLASSES symbolName =
     (symbolName \<in> set ALLOWED_CLASSES_own \<or> symbolName \<in> set Object_prototype_keys)"

definition getTypesOfTupleType :: "'t \<Rightarrow> 't TypeChecker \<Rightarrow> 't list option" where
  "getTypesOfTupleType t checker =
     (if isTupleType checker t then Some (getTypeArguments checker t) else None)"

definition mkReason :: "'t TypeChecker \<Rightarrow> 't \<Rightarrow> string \<Rightarrow> 't TypeReason" where
  "mkReason checker t r =
     \<lparr>rtype = t, typeStr = typeToString checker t, location = None, reason = r\<rparr>"

definition LF :: string where "LF = [CHR 0x0A]"

definition dquote :: string where "dquote = [CHR 0x22]"

definition backtick :: string where "backtick = [CHR 0x60]"

definition functionReason :: "RuleContext \<Rightarrow> tsSymbol \<Rightarrow> tsNode \<Rightarrow> nat \<Rightarrow> string" where
  "functionReason ctx symb node level =
     (let reason = ''is a function, which is not serializable''
      in if level = 0 \<and> isIdentifier node
         then let solution = ''const '' @ nodeText node @ '' = $('' @ LF @ getContent ctx symb @ LF @ '');''
              in reason @ ''.'' @ LF @ ''Did you mean to wrap it in '' @ backtick @ ''$()'' @ backtick @ ''?''
                   @ LF @ LF @ solution @ LF
         else reason)"

definition prototypeClass :: "'t TypeChecker \<Rightarrow> 't tsType \<Rightarrow> tsNode \<Rightarrow> 't option" where
  "prototypeClass checker ty node =
     (case getProperty ty ''prototype'' of
        None \<Rightarrow> None
      | Some prototype \<Rightarrow>
          (let pt = getTypeOfSymbolAtLocation checker prototype node
           in if isClass (typeObject checker pt) then Some pt else None))"

text \<open>
  \<^verbatim>\<open>_isTypeCapturable\<close> (here \<open>isTypeCapturable_rec\<close>), \<^verbatim>\<open>isSymbolCapturable\<close> and the two loops
  of \<^verbatim>\<open>_isTypeCapturable\<close>: the loop over the members of a union and the slots of a tuple
  (\<open>subTypesCapturable\<close>) and the loop over the properties of an object type
  (\<open>propertiesCapturable\<close>). The set \<^verbatim>\<open>seen\<close> is mutated by the source; here it is passed in
  and returned beside the result. The result is \<open>Inr None\<close> for \<^verbatim>\<open>undefined\<close> (capturable),
  \<open>Inr (Some reason)\<close> for a returned reason, and \<open>Inl TypeError\<close> where the source reads
  \<^verbatim>\<open>type.symbol.name\<close> of a type without symbol.

  The identities of the types are a finite type: the rule runs on the types of one
  finished program. With the set \<^verbatim>\<open>seen\<close> this makes the recursion end. A checker that
  makes new types without end while it is asked is outside the model.
\<close>

function (sequential)
  isTypeCapturable_rec :: "RuleContext \<Rightarrow> ('t::finite) TypeChecker \<Rightarrow> 't \<Rightarrow> tsNode \<Rightarrow> DetectorOptions
      \<Rightarrow> nat \<Rightarrow> 't set \<Rightarrow> (error + 't TypeReason option) \<times> 't set"
and isSymbolCapturable :: "RuleContext \<Rightarrow> 't TypeChecker \<Rightarrow> tsSymbol \<Rightarrow> tsNode \<Rightarrow> DetectorOptions
      \<Rightarrow> nat \<Rightarrow> 't set \<Rightarrow> (error + 't TypeReason option) \<times> 't set"
and subTypesCapturable :: "RuleContext \<Rightarrow> 't TypeChecker \<Rightarrow> 't list \<Rightarrow> tsNode \<Rightarrow> DetectorOptions
      \<Rightarrow> nat \<Rightarrow> 't set \<Rightarrow> (error + 't TypeReason option) \<times> 't set"
and propertiesCapturable :: "RuleContext \<Rightarrow> 't TypeChecker \<Rightarrow> tsSymbol list \<Rightarrow> tsNode \<Rightarrow> DetectorOptions
      \<Rightarrow> nat \<Rightarrow> 't set \<Rightarrow> (error + 't TypeReason option) \<times> 't set"
where
  "isTypeCapturable_rec ctx checker t node opts level seen =
     (if t \<in> seen then (Inr None, seen)
      else
        let seen1 = insert t seen; ty = typeObject checker t
        in if getProperty ty ''__no_serialize__'' \<noteq> None then (Inr None, seen1)
           else if flags ty AND TypeFlags_Unknown \<noteq> 0
           then (Inr (Some (mkReason checker t
                   ''is unknown, which could be serializable or not, please make the type for specific'')), seen1)
           else if \<not> allowAny opts \<and> flags ty AND TypeFlags_Any \<noteq> 0
           then (Inr (Some (mkReason checker t ''is any, which is not serializable'')), seen1)
           else if flags ty AND TypeFlags_ESSymbolLike \<noteq> 0
           then (Inr (Some (mkReason checker t ''is Symbol, which is not serializable'')), seen1)
           else if flags ty AND TypeFlags_Enum \<noteq> 0
           then (Inr (Some (mkReason checker t ''is an enum, use an string or a number instead'')), seen1)
           else if isTypeQRL ty then (Inr None, seen1)
           else if getCallSignatures ty > 0
           then (case symbol ty of
                   None \<Rightarrow> (Inl TypeError, seen1)
                 | Some symb \<Rightarrow>
                     if name symb = ''PropFnInterface'' then (Inr None, seen1)
                     else (Inr (Some (mkReason checker t (functionReason ctx symb node level))), seen1))
           else if isUnion ty
           then subTypesCapturable ctx checker (types ty) node opts (level + 1) seen1
           else if flags ty AND TypeFlags_Object \<noteq> 0
           then (case getElementTypeOfArrayType checker t of
                   Some arrayType \<Rightarrow>
                     isTypeCapturable_rec ctx checker arrayType node opts (level + 1) seen1
                 | None \<Rightarrow>
                    (case getTypesOfTupleType t checker of
                       Some tupleTypes \<Rightarrow>
                         subTypesCapturable ctx checker tupleTypes node opts (level + 1) seen1
                     | None \<Rightarrow>
                        (case symbol ty of
                           None \<Rightarrow> (Inl TypeError, seen1)
                         | Some symb \<Rightarrow>
                             if getProperty ty ''nextElementSibling'' \<noteq> None then (Inr None, seen1)
                             else if getProperty ty ''activeElement'' \<noteq> None then (Inr None, seen1)
                             else if ALLOWED_CLASSES (name symb) then (Inr None, seen1)
                             else if isClass ty
                             then (Inr (Some (mkReason checker t
                                     (''is an instance of the '' @ dquote @ name symb @ dquote
                                      @ '' class, which is not serializable. Use a simple object literal instead''))),
                                   seen1)
                             else (case prototypeClass checker ty node of
                                     Some pt \<Rightarrow>
                                       (Inr (Some (mkReason checker pt
                                          ''is a class constructor, which is not serializable'')), seen1)
                                   | None \<Rightarrow>
                                       if \<not> startsWith (name symb) ''__'' \<and> valueDeclaration symb \<noteq> None
                                       then (Inr (Some (mkReason checker t
                                               (''is an instance of the '' @ dquote @ name symb @ dquote
                                                @ '' class, which is not serializable''))), seen1)
                                       else propertiesCapturable ctx checker (getProperties ty) node opts
                                              (level + 1) seen1))))
           else (Inr None, seen1))"
| "isSymbolCapturable ctx checker symb node opts level seen =
     isTypeCapturable_rec ctx checker (getTypeOfSymbolAtLocation checker symb node) node opts level seen"
| "subTypesCapturable ctx checker [] node opts level seen = (Inr None, seen)"
| "subTypesCapturable ctx checker (subType # rest) node opts level seen =
     (case isTypeCapturable_rec ctx checker subType node opts level seen of
        (Inr None, seen') \<Rightarrow> subTypesCapturable ctx checker rest node opts level seen'
      | (Inr (Some result), seen') \<Rightarrow> (Inr (Some result), seen')
      | (Inl e, seen') \<Rightarrow> (Inl e, seen'))"
| "propertiesCapturable ctx checker [] node opts level seen = (Inr None, seen)"
| "propertiesCapturable ctx checker (symb # rest) node opts level seen =
     (case isSymbolCapturable ctx checker symb node opts level seen of
        (Inr None, seen') \<Rightarrow> propertiesCapturable ctx checker rest node opts level seen'
      | (Inr (Some result), seen') \<Rightarrow>
          (Inr (Some (result\<lparr>location :=
             Some (name symb @ (case location result of
                                  None \<Rightarrow> []
                                | Some loc \<Rightarrow> if loc = [] then [] else ''.'' @ loc))\<rparr>)), seen')
      | (Inl e, seen') \<Rightarrow> (Inl e, seen'))"
  by pat_completeness auto

text \<open>The visited set only grows; this is what the termination proof needs of the loops.\<close>

lemma insert_subset_weaken: "insert t seen \<subseteq> X \<Longrightarrow> seen \<subseteq> X"
  by blast

lemma seen_mono_dom:
  "isTypeCapturable_rec_isSymbolCapturable_subTypesCapturable_propertiesCapturable_dom
     (Inl (Inl (ctx, checker, t, node, opts, level, seen))) \<Longrightarrow>
   seen \<subseteq> snd (isTypeCapturable_rec ctx checker t node opts level seen)"
  "isTypeCapturable_rec_isSymbolCapturable_subTypesCapturable_propertiesCapturable_dom
     (Inl (Inr (ctx, checker, symb, node, opts, level, seen))) \<Longrightarrow>
   seen \<subseteq> snd (isSymbolCapturable ctx checker symb node opts level seen)"
  "isTypeCapturable_rec_isSymbolCapturable_subTypesCapturable_propertiesCapturable_dom
     (Inr (Inl (ctx, checker, ts, node, opts, level, seen))) \<Longrightarrow>
   seen \<subseteq> snd (subTypesCapturable ctx checker ts node opts level seen)"
  "isTypeCapturable_rec_isSymbolCapturable_subTypesCapturable_propertiesCapturable_dom
     (Inr (Inr (ctx, checker, symbs, node, opts, level, seen))) \<Longrightarrow>
   seen \<subseteq> snd (propertiesCapturable ctx checker symbs node opts level seen)"
proof (induct rule: isTypeCapturable_rec_isSymbolCapturable_subTypesCapturable_propertiesCapturable.pinduct)
  case (1 ctx checker t node opts level seen)
  show ?case
  proof (cases "t \<in> seen")
    case True
    then show ?thesis by (simp add: isTypeCapturable_rec.psimps[OF 1(1)])
  next
    case False
    note ih = insert_subset_weaken[OF 1(2)[OF False refl refl]]
      insert_subset_weaken[OF 1(3)[OF False refl refl]]
      insert_subset_weaken[OF 1(4)[OF False refl refl]]
      insert_subset_weaken[OF 1(5)[OF False refl refl]]
    show ?thesis
      using False ih
      by (simp add: isTypeCapturable_rec.psimps[OF 1(1)] Let_def subset_insertI
            split: option.split)
  qed
next
  case (2 ctx checker symb node opts level seen)
  then show ?case by (simp add: isSymbolCapturable.psimps)
next
  case (3 ctx checker node opts level seen)
  then show ?case by (simp add: subTypesCapturable.psimps)
next
  case (4 ctx checker subType rest node opts level seen)
  show ?case
  proof (cases "isTypeCapturable_rec ctx checker subType node opts level seen")
    case (Pair r y)
    show ?thesis
    proof (cases r)
      case (Inl e)
      with Pair 4(2) show ?thesis by (simp add: subTypesCapturable.psimps(2)[OF 4(1)])
    next
      case (Inr b)
      show ?thesis
      proof (cases b)
        case None
        from 4(3)[OF Pair[symmetric] Inr None] 4(2) Pair have "seen \<subseteq> snd (subTypesCapturable ctx checker rest node opts level y)"
          by simp
        with Pair Inr None show ?thesis by (simp add: subTypesCapturable.psimps(2)[OF 4(1)])
      next
        case (Some res)
        with Pair Inr 4(2) show ?thesis by (simp add: subTypesCapturable.psimps(2)[OF 4(1)])
      qed
    qed
  qed
next
  case (5 ctx checker node opts level seen)
  then show ?case by (simp add: propertiesCapturable.psimps)
next
  case (6 ctx checker symb rest node opts level seen)
  show ?case
  proof (cases "isSymbolCapturable ctx checker symb node opts level seen")
    case (Pair r y)
    show ?thesis
    proof (cases r)
      case (Inl e)
      with Pair 6(2) show ?thesis by (simp add: propertiesCapturable.psimps(2)[OF 6(1)])
    next
      case (Inr b)
      show ?thesis
      proof (cases b)
        case None
        from 6(3)[OF Pair[symmetric] Inr None] 6(2) Pair have "seen \<subseteq> snd (propertiesCapturable ctx checker rest node opts level y)"
          by simp
        with Pair Inr None show ?thesis by (simp add: propertiesCapturable.psimps(2)[OF 6(1)])
      next
        case (Some res)
        with Pair Inr 6(2) show ?thesis by (simp add: propertiesCapturable.psimps(2)[OF 6(1)])
      qed
    qed
  qed
qed

lemma card_compl_insert: "t \<notin> seen \<Longrightarrow> card (- insert t seen) < card (- (seen :: 't::finite set))"
  by (rule psubset_card_mono) auto

lemma card_compl_mono: "seen \<subseteq> seen' \<Longrightarrow> card (- seen') \<le> card (- (seen :: 't::finite set))"
  by (rule card_mono) auto

termination isTypeCapturable_rec
proof (relation "inv_image (less_than <*lex*> less_than)
    (\<lambda>x. case x of
       Inl (Inl (c, k, t, n, o', l, seen)) \<Rightarrow> (card (- seen), 0)
     | Inl (Inr (c, k, s, n, o', l, seen)) \<Rightarrow> (card (- seen), 1)
     | Inr (Inl (c, k, ts, n, o', l, seen)) \<Rightarrow> (card (- seen), 1 + length ts)
     | Inr (Inr (c, k, ss, n, o', l, seen)) \<Rightarrow> (card (- seen), 2 + length ss))", goal_cases)
  case 1
  show ?case by (intro wf_inv_image wf_lex_prod wf_less_than)
next
  case 2
  from card_compl_insert[OF 2(1)] 2(2) show ?case by simp
next
  case 3
  from card_compl_insert[OF 3(1)] 3(2) show ?case by simp
next
  case 4
  from card_compl_insert[OF 4(1)] 4(2) show ?case by simp
next
  case 5
  from card_compl_insert[OF 5(1)] 5(2) show ?case by simp
next
  case 6 show ?case by simp
next
  case 7 show ?case by simp
next
  case (8 ctx checker subType rest node opts level seen x y b)
  have "snd (isTypeCapturable_rec ctx checker subType node opts level seen) = y"
    by (simp add: 8(1)[symmetric])
  with seen_mono_dom(1)[OF 8(4)] have "seen \<subseteq> y" by simp
  from card_compl_mono[OF this] have "card (- y) < card (- seen) \<or> card (- y) = card (- seen)"
    by (rule le_imp_less_or_eq)
  then show ?case
  proof
    assume "card (- y) < card (- seen)" then show ?thesis by simp
  next
    assume "card (- y) = card (- seen)" then show ?thesis by simp
  qed
next
  case 9 show ?case by simp
next
  case (10 ctx checker symb rest node opts level seen x y b)
  have "snd (isSymbolCapturable ctx checker symb node opts level seen) = y"
    by (simp add: 10(1)[symmetric])
  with seen_mono_dom(2)[OF 10(4)] have "seen \<subseteq> y" by simp
  from card_compl_mono[OF this] have "card (- y) < card (- seen) \<or> card (- y) = card (- seen)"
    by (rule le_imp_less_or_eq)
  then show ?case
  proof
    assume "card (- y) < card (- seen)" then show ?thesis by simp
  next
    assume "card (- y) = card (- seen)" then show ?thesis by simp
  qed
qed

record ParentNode =
  parentType :: string
  left :: "nat option"

text \<open>
  An ESTree identifier: the identity of the node, \<^verbatim>\<open>identifier.name\<close> and
  \<^verbatim>\<open>identifier.parent\<close>, of which the rule reads the type and the identity of \<^verbatim>\<open>left\<close>.
\<close>

record Identifier =
  nodeId :: nat
  identName :: string
  parent :: "ParentNode option"

text \<open>
  \<^verbatim>\<open>isTypeCapturable\<close>, the entry at recursion depth 0: a failure with a location gets the
  name of the captured identifier in front.
\<close>

definition isTypeCapturable :: "RuleContext \<Rightarrow> ('t::finite) TypeChecker \<Rightarrow> 't \<Rightarrow> tsNode \<Rightarrow> Identifier
    \<Rightarrow> DetectorOptions \<Rightarrow> 't set \<Rightarrow> (error + 't TypeReason option) \<times> 't set" where
  "isTypeCapturable ctx checker t tsnode ident opts seen =
     (case isTypeCapturable_rec ctx checker t tsnode opts 0 seen of
        (Inr (Some result), seen') \<Rightarrow>
          (Inr (Some (if truthy (location result)
                      then result\<lparr>location := Some (identName ident @ ''.'' @ the (location result))\<rparr>
                      else result)), seen')
      | (r, seen') \<Rightarrow> (r, seen'))"

text \<open>\<^verbatim>\<open>canCapture\<close> creates the set \<^verbatim>\<open>seen\<close> afresh and drops it when it returns.\<close>

definition canCapture :: "RuleContext \<Rightarrow> ('t::finite) TypeChecker \<Rightarrow> tsNode \<Rightarrow> Identifier
    \<Rightarrow> DetectorOptions \<Rightarrow> error + 't TypeReason option" where
  "canCapture ctx checker node ident opts =
     fst (isTypeCapturable ctx checker (getTypeAtLocation checker node) node ident opts {})"

definition humanizeTypeReason :: "'t TypeReason \<Rightarrow> string" where
  "humanizeTypeReason r =
     (if truthy (location r) then dquote @ the (location r) @ dquote @ '' '' else ''it '') @ reason r"

subsection \<open>Scopes, references and reports\<close>

text \<open>
  A scope as the walker reads it upwards: its identity, \<^verbatim>\<open>scope.type\<close> and \<^verbatim>\<open>scope.upper\<close>.
  Two scopes are the same object when their identities are equal.
\<close>

datatype Scope = Scope (scopeId: nat) (scopeType: string) (upper: "Scope option")

record Definition =
  defType :: string

record Variable =
  defs :: "Definition list"
  scope :: "Scope option"

record Reference =
  resolved :: "Variable option"
  refFrom :: Scope
  refIdentifier :: Identifier

text \<open>A scope as the walker reads it downwards: \<^verbatim>\<open>scope.references\<close> and \<^verbatim>\<open>scope.childScopes\<close>.\<close>

datatype ScopeTree = ScopeTree (references: "Reference list") (childScopes: "ScopeTree list")

datatype MessageId = referencesOutside | invalidJsxDollar | mutableIdentifier

record Diagnostic =
  messageId :: MessageId
  reportNode :: nat
  reportData :: "(string \<times> string) list"

text \<open>
  The services of the rule: the context, the checker, \<^verbatim>\<open>esTreeNodeToTSNodeMap.get\<close> and
  \<^verbatim>\<open>scopeManager.acquire\<close> (both by the identity of the ESTree node) and the options.
\<close>

record 't Services =
  ruleContext :: RuleContext
  typeChecker :: "'t TypeChecker"
  esTreeNodeToTSNodeMap :: "nat \<Rightarrow> tsNode"
  acquire :: "nat \<Rightarrow> Scope option"
  detectorOptions :: DetectorOptions

text \<open>\<^verbatim>\<open>relevantScopes\<close>, a map from scope identities to the name of the boundary.\<close>

type_synonym Registry = "nat \<rightharpoonup> string"

text \<open>
  The first loop of \<^verbatim>\<open>walkScope\<close>: up from \<^verbatim>\<open>ref.from\<close> to the first scope whose entry in
  the registry is truthy.
\<close>

fun findDollarScope :: "Registry \<Rightarrow> Scope \<Rightarrow> (Scope \<times> string) option" where
  "findDollarScope rs (Scope i ty up) =
     (if truthy (rs i) then Some (Scope i ty up, the (rs i))
      else (case up of None \<Rightarrow> None | Some u \<Rightarrow> findDollarScope rs u))"

text \<open>The second loop: up from the declaring scope to the first scope the registry has.\<close>

fun findOwnerDeclared :: "Registry \<Rightarrow> Scope \<Rightarrow> Scope option" where
  "findOwnerDeclared rs (Scope i ty up) =
     (if rs i \<noteq> None then Some (Scope i ty up)
      else (case up of None \<Rightarrow> None | Some u \<Rightarrow> findOwnerDeclared rs u))"

definition mutableIdentifierReport :: "Identifier \<Rightarrow> string \<Rightarrow> Diagnostic" where
  "mutableIdentifierReport ident dollarIdentifier =
     \<lparr>messageId = mutableIdentifier, reportNode = nodeId ident,
      reportData = [(''varName'', identName ident), (''dollarName'', dollarIdentifier)]\<rparr>"

definition referencesOutsideReport :: "Identifier \<Rightarrow> string \<Rightarrow> 't TypeReason \<Rightarrow> Diagnostic" where
  "referencesOutsideReport ident dollarIdentifier r =
     \<lparr>messageId = referencesOutside, reportNode = nodeId ident,
      reportData = [(''varName'', identName ident), (''dollarName'', dollarIdentifier),
                    (''reason'', humanizeTypeReason r)]\<rparr>"

text \<open>
  The body of \<^verbatim>\<open>if (ownerDeclared !== dollarScope)\<close>: the reports it makes, in order, and the
  exception that ended it, if any.
\<close>

definition reportCrossing :: "('t::finite) Services \<Rightarrow> Reference \<Rightarrow> string \<Rightarrow> Diagnostic list \<times> error option" where
  "reportCrossing services ref dollarIdentifier =
     (let ident = refIdentifier ref;
          tsNode = esTreeNodeToTSNodeMap services (nodeId ident);
          mutation =
            (case parent ident of
               None \<Rightarrow> []
             | Some p \<Rightarrow>
                 if parentType p = ''AssignmentExpression'' \<and> left p = Some (nodeId ident)
                 then [mutableIdentifierReport ident dollarIdentifier] else [])
      in case canCapture (ruleContext services) (typeChecker services) tsNode ident
                (detectorOptions services) of
           Inl e \<Rightarrow> (mutation, Some e)
         | Inr None \<Rightarrow> (mutation, None)
         | Inr (Some r) \<Rightarrow> (mutation @ [referencesOutsideReport ident dollarIdentifier r], None))"

text \<open>\<^verbatim>\<open>declaredVariable.defs.at(0)?.type\<close>.\<close>

definition variableType :: "Variable \<Rightarrow> string option" where
  "variableType declaredVariable =
     (case defs declaredVariable of [] \<Rightarrow> None | d # ds \<Rightarrow> Some (defType d))"

text \<open>The callback of \<^verbatim>\<open>scope.references.forEach\<close>.\<close>

definition walkReference :: "('t::finite) Services \<Rightarrow> Registry \<Rightarrow> Reference \<Rightarrow> Diagnostic list \<times> error option" where
  "walkReference services relevantScopes ref =
     (case resolved ref of
        None \<Rightarrow> ([], None)
      | Some declaredVariable \<Rightarrow>
         (case scope declaredVariable of
            None \<Rightarrow> ([], None)
          | Some declaredScope \<Rightarrow>
             (if variableType declaredVariable = Some ''Type'' then ([], None)
              else if variableType declaredVariable = Some ''ImportBinding'' then ([], None)
              else (case findDollarScope relevantScopes (refFrom ref) of
                      None \<Rightarrow> ([], None)
                    | Some (dollarScope, dollarIdentifier) \<Rightarrow>
                        if scopeType declaredScope = ''global'' then ([], None)
                        else if scopeType declaredScope = ''module'' then ([], None)
                        else if map_option scopeId (findOwnerDeclared relevantScopes declaredScope)
                                  \<noteq> Some (scopeId dollarScope)
                        then reportCrossing services ref dollarIdentifier
                        else ([], None)))))"

text \<open>Running one step after another: an exception ends the run, the reports made so far stay.\<close>

definition andThen :: "Diagnostic list \<times> error option \<Rightarrow> Diagnostic list \<times> error option
    \<Rightarrow> Diagnostic list \<times> error option" where
  "andThen a b = (case snd a of Some e \<Rightarrow> a | None \<Rightarrow> (fst a @ fst b, snd b))"

fun walkReferences :: "('t::finite) Services \<Rightarrow> Registry \<Rightarrow> Reference list \<Rightarrow> Diagnostic list \<times> error option" where
  "walkReferences services relevantScopes [] = ([], None)"
| "walkReferences services relevantScopes (r # rs) =
     andThen (walkReference services relevantScopes r) (walkReferences services relevantScopes rs)"

fun walkScope :: "('t::finite) Services \<Rightarrow> Registry \<Rightarrow> ScopeTree \<Rightarrow> Diagnostic list \<times> error option"
and walkScopes :: "('t::finite) Services \<Rightarrow> Registry \<Rightarrow> ScopeTree list \<Rightarrow> Diagnostic list \<times> error option" where
  "walkScope services relevantScopes (ScopeTree refs children) =
     andThen (walkReferences services relevantScopes refs) (walkScopes services relevantScopes children)"
| "walkScopes services relevantScopes [] = ([], None)"
| "walkScopes services relevantScopes (c # cs) =
     andThen (walkScope services relevantScopes c) (walkScopes services relevantScopes cs)"

text \<open>\<^verbatim>\<open>Program:exit\<close>: the walk starts at the global scope, after the visitors have run.\<close>

definition Program_exit :: "('t::finite) Services \<Rightarrow> Registry \<Rightarrow> ScopeTree \<Rightarrow> Diagnostic list \<times> error option" where
  "Program_exit services relevantScopes globalScope = walkScope services relevantScopes globalScope"

subsection \<open>The visitors that fill the registry\<close>

text \<open>
  An expression node as the visitors read it: its identity, its type and, for an
  identifier, its name. \<^verbatim>\<open>CallExpression\<close> registers the scope of an arrow function that is the
  first argument of a call of an identifier whose name ends in \<^verbatim>\<open>$\<close>.
\<close>

record Expression =
  exprId :: nat
  exprType :: string
  exprName :: string

record CallExpression =
  calleeType :: string
  calleeName :: string
  arguments :: "Expression list"

definition CallExpression_visitor :: "'t Services \<Rightarrow> CallExpression \<Rightarrow> Registry \<Rightarrow> Registry" where
  "CallExpression_visitor services node relevantScopes =
     (if calleeType node = ''Identifier'' \<and> endsWith (calleeName node) ''$''
      then (case arguments node of
              [] \<Rightarrow> relevantScopes
            | firstArg # rest \<Rightarrow>
                if exprType firstArg = ''ArrowFunctionExpression''
                then (case acquire services (exprId firstArg) of
                        Some s \<Rightarrow> relevantScopes(scopeId s \<mapsto> calleeName node)
                      | None \<Rightarrow> relevantScopes)
                else relevantScopes)
      else relevantScopes)"

datatype JSXName = JSXIdentifier string | JSXNamespacedName string string

datatype JSXValue = JSXExpressionContainer Expression | OtherValue

record JSXAttribute =
  attrName :: JSXName
  attrValue :: "JSXValue option"

definition invalidJsxDollarReport :: "Expression \<Rightarrow> string \<Rightarrow> Diagnostic" where
  "invalidJsxDollarReport expression solution =
     \<lparr>messageId = invalidJsxDollar, reportNode = exprId expression,
      reportData = [(''varName'', exprName expression), (''solution'', solution)]\<rparr>"

text \<open>The callback of \<^verbatim>\<open>type.types.every\<close> in the JSX visitor.\<close>

definition propFnOrNullish :: "'t TypeChecker \<Rightarrow> 't \<Rightarrow> bool" where
  "propFnOrNullish checker t =
     (let m = typeObject checker t
      in case symbol m of
           Some s \<Rightarrow> name s = ''PropFnInterface''
         | None \<Rightarrow> flags m AND (TypeFlags_Undefined OR TypeFlags_Null) \<noteq> 0)"

text \<open>
  The visitor of a JSX attribute: the registry after it, the reports it makes and the
  exception that ended it, if any.
\<close>

definition JSXAttribute_visitor :: "'t Services \<Rightarrow> JSXAttribute \<Rightarrow> Registry
    \<Rightarrow> Registry \<times> Diagnostic list \<times> error option" where
  "JSXAttribute_visitor services node relevantScopes =
     (let jsxName = (case attrName node of JSXIdentifier n \<Rightarrow> n | JSXNamespacedName ns n \<Rightarrow> n)
      in if endsWith jsxName ''$''
         then (case attrValue node of
                 Some (JSXExpressionContainer expression) \<Rightarrow>
                   (case acquire services (exprId expression) of
                      Some s \<Rightarrow> (relevantScopes(scopeId s \<mapsto> jsxName), [], None)
                    | None \<Rightarrow>
                        if exprType expression = ''Identifier''
                        then (let checker = typeChecker services;
                                  tsNode = esTreeNodeToTSNodeMap services (exprId expression);
                                  ty = typeObject checker (getTypeAtLocation checker tsNode)
                              in if \<not> isTypeQRL ty
                                 then if isUnionOrIntersection ty
                                      then if \<not> list_all (propFnOrNullish checker) (types ty)
                                           then (relevantScopes,
                                                 [invalidJsxDollarReport expression
                                                    (''Fix the type of '' @ exprName expression
                                                     @ '' to be PropFunction'')], None)
                                           else (relevantScopes, [], None)
                                      else (case symbol ty of
                                              None \<Rightarrow> (relevantScopes, [], Some TypeError)
                                            | Some symb \<Rightarrow>
                                                if name symb = ''PropFnInterface''
                                                then (relevantScopes, [], None)
                                                else (relevantScopes,
                                                      [invalidJsxDollarReport expression
                                                         (''const '' @ exprName expression @ '' = $('' @ LF
                                                          @ getContent (ruleContext services) symb
                                                          @ LF @ '');'' @ LF)], None))
                                 else (relevantScopes, [], None))
                        else (relevantScopes, [], None))
               | _ \<Rightarrow> (relevantScopes, [], None))
         else (relevantScopes, [], None))"

subsection \<open>The walk over the types, without the reasons\<close>

text \<open>
  What the classifier does with one type, apart from the texts of its reasons: it stops
  with capturable, it fails (a reason or an exception), or it goes on into a list of types.
\<close>

datatype 't step = Stop | Fail | Sub "'t list"

definition typeStep :: "'t TypeChecker \<Rightarrow> tsNode \<Rightarrow> DetectorOptions \<Rightarrow> 't \<Rightarrow> 't step" where
  "typeStep checker node opts t =
     (let ty = typeObject checker t
      in if getProperty ty ''__no_serialize__'' \<noteq> None then Stop
         else if flags ty AND TypeFlags_Unknown \<noteq> 0 then Fail
         else if \<not> allowAny opts \<and> flags ty AND TypeFlags_Any \<noteq> 0 then Fail
         else if flags ty AND TypeFlags_ESSymbolLike \<noteq> 0 then Fail
         else if flags ty AND TypeFlags_Enum \<noteq> 0 then Fail
         else if isTypeQRL ty then Stop
         else if getCallSignatures ty > 0
         then (case symbol ty of
                 None \<Rightarrow> Fail
               | Some symb \<Rightarrow> if name symb = ''PropFnInterface'' then Stop else Fail)
         else if isUnion ty then Sub (types ty)
         else if flags ty AND TypeFlags_Object \<noteq> 0
         then (case getElementTypeOfArrayType checker t of
                 Some arrayType \<Rightarrow> Sub [arrayType]
               | None \<Rightarrow>
                  (case getTypesOfTupleType t checker of
                     Some tupleTypes \<Rightarrow> Sub tupleTypes
                   | None \<Rightarrow>
                      (case symbol ty of
                         None \<Rightarrow> Fail
                       | Some symb \<Rightarrow>
                           if getProperty ty ''nextElementSibling'' \<noteq> None then Stop
                           else if getProperty ty ''activeElement'' \<noteq> None then Stop
                           else if ALLOWED_CLASSES (name symb) then Stop
                           else if isClass ty then Fail
                           else (case prototypeClass checker ty node of
                                   Some pt \<Rightarrow> Fail
                                 | None \<Rightarrow>
                                     if \<not> startsWith (name symb) ''__'' \<and> valueDeclaration symb \<noteq> None
                                     then Fail
                                     else Sub (map (\<lambda>s. getTypeOfSymbolAtLocation checker s node)
                                                 (getProperties ty))))))
         else Stop)"

text \<open>The depth-first walk over the types with the visited set, without the reasons.\<close>

function dfs :: "('t::finite \<Rightarrow> 't step) \<Rightarrow> 't \<Rightarrow> 't set \<Rightarrow> bool \<times> 't set"
and dfsList :: "('t \<Rightarrow> 't step) \<Rightarrow> 't list \<Rightarrow> 't set \<Rightarrow> bool \<times> 't set" where
  "dfs step t seen =
     (if t \<in> seen then (True, seen)
      else (case step t of
              Stop \<Rightarrow> (True, insert t seen)
            | Fail \<Rightarrow> (False, insert t seen)
            | Sub ts \<Rightarrow> dfsList step ts (insert t seen)))"
| "dfsList step [] seen = (True, seen)"
| "dfsList step (t # ts) seen =
     (case dfs step t seen of
        (ok, seen') \<Rightarrow> if ok then dfsList step ts seen' else (False, seen'))"
  by pat_completeness auto

lemma dfs_mono_dom:
  "dfs_dfsList_dom (Inl (step, t, seen)) \<Longrightarrow> seen \<subseteq> snd (dfs step t seen)"
  "dfs_dfsList_dom (Inr (step, ts, seen)) \<Longrightarrow> seen \<subseteq> snd (dfsList step ts seen)"
proof (induct rule: dfs_dfsList.pinduct)
  case (1 step t seen)
  show ?case
  proof (cases "t \<in> seen")
    case True
    then show ?thesis by (simp add: dfs.psimps[OF 1(1)])
  next
    case False
    show ?thesis
    proof (cases "step t")
      case Stop
      with False show ?thesis by (simp add: dfs.psimps[OF 1(1)] subset_insertI)
    next
      case Fail
      with False show ?thesis by (simp add: dfs.psimps[OF 1(1)] subset_insertI)
    next
      case (Sub ts)
      from insert_subset_weaken[OF 1(2)[OF False Sub]] False Sub
      show ?thesis by (simp add: dfs.psimps[OF 1(1)])
    qed
  qed
next
  case (2 step seen)
  then show ?case by (simp add: dfsList.psimps)
next
  case (3 step t ts seen)
  show ?case
  proof (cases "dfs step t seen")
    case (Pair ok s')
    show ?thesis
    proof (cases ok)
      case True
      from 3(3)[OF Pair[symmetric] True] 3(2) Pair
      have "seen \<subseteq> snd (dfsList step ts s')" by simp
      with Pair True show ?thesis by (simp add: dfsList.psimps(2)[OF 3(1)])
    next
      case False
      with Pair 3(2) show ?thesis by (simp add: dfsList.psimps(2)[OF 3(1)])
    qed
  qed
qed

termination dfs
proof (relation "inv_image (less_than <*lex*> less_than)
    (\<lambda>x. case x of
       Inl (s, t, seen) \<Rightarrow> (card (- seen), 0)
     | Inr (s, ts, seen) \<Rightarrow> (card (- seen), 1 + length ts))", goal_cases)
  case 1
  show ?case by (intro wf_inv_image wf_lex_prod wf_less_than)
next
  case 2
  from card_compl_insert[OF 2(1)] show ?case by simp
next
  case 3 show ?case by simp
next
  case (4 step t ts seen x y)
  have "snd (dfs step t seen) = y"
    by (simp add: 4(1)[symmetric])
  with dfs_mono_dom(1)[OF 4(3)] have "seen \<subseteq> y" by simp
  from card_compl_mono[OF this] have "card (- y) < card (- seen) \<or> card (- y) = card (- seen)"
    by (rule le_imp_less_or_eq)
  then show ?case
  proof
    assume "card (- y) < card (- seen)" then show ?thesis by simp
  next
    assume "card (- y) = card (- seen)" then show ?thesis by simp
  qed
qed

text \<open>
  The edges of the walk, and the types from which the walk comes to no type that fails.
\<close>

definition edges :: "('t \<Rightarrow> 't step) \<Rightarrow> ('t \<times> 't) set" where
  "edges step = {(a, b). \<exists>ts. step a = Sub ts \<and> b \<in> set ts}"

definition allOk :: "('t \<Rightarrow> 't step) \<Rightarrow> 't \<Rightarrow> bool" where
  "allOk step t = (\<forall>u. (t, u) \<in> (edges step)\<^sup>* \<longrightarrow> step u \<noteq> Fail)"

text \<open>
  The types of \<open>X\<close> do not fail, and the walk goes from them into \<open>S\<close> only.
\<close>

definition closedIn :: "('t \<Rightarrow> 't step) \<Rightarrow> 't set \<Rightarrow> 't set \<Rightarrow> bool" where
  "closedIn step S X = (\<forall>u\<in>X. step u \<noteq> Fail \<and> (\<forall>ts. step u = Sub ts \<longrightarrow> set ts \<subseteq> S))"

subsection \<open>The conditions of the claims\<close>

text \<open>
  A type gets as far as the test of call signatures: none of the earlier returns is taken.
\<close>

definition reachesCallCheck :: "DetectorOptions \<Rightarrow> 't tsType \<Rightarrow> bool" where
  "reachesCallCheck opts ty =
     (getProperty ty ''__no_serialize__'' = None \<and> flags ty AND TypeFlags_Unknown = 0
      \<and> flags ty AND TypeFlags_ESSymbolLike = 0 \<and> flags ty AND TypeFlags_Enum = 0
      \<and> \<not> isTypeQRL ty)"

text \<open>
  An object type gets as far as the allow-list: it has no call signature and is no union,
  array or tuple.
\<close>

definition reachesAllowList :: "'t TypeChecker \<Rightarrow> DetectorOptions \<Rightarrow> 't \<Rightarrow> bool" where
  "reachesAllowList checker opts t =
     (let ty = typeObject checker t
      in reachesCallCheck opts ty \<and> getCallSignatures ty = 0 \<and> \<not> isUnion ty
         \<and> flags ty AND TypeFlags_Object \<noteq> 0
         \<and> getElementTypeOfArrayType checker t = None \<and> \<not> isTupleType checker t)"

text \<open>
  The text of the file between the offsets of the first declaration of a symbol, when it
  has one; the lines of a text, cut at the line terminators; a line with white space only;
  a text that has no such line.
\<close>

definition declarationText :: "RuleContext \<Rightarrow> tsSymbol \<Rightarrow> string option" where
  "declarationText ctx symb =
     (case declarations symb of
        Some (decl # ds) \<Rightarrow> Some (slice (sourceText ctx) (pos decl) (dend decl))
      | _ \<Rightarrow> None)"

fun splitLines :: "string \<Rightarrow> string list" where
  "splitLines [] = [[]]"
| "splitLines (c # cs) =
     (if isLineTerminator c then [] # splitLines cs
      else (c # hd (splitLines cs)) # tl (splitLines cs))"

definition isBlankLine :: "string \<Rightarrow> bool" where
  "isBlankLine l = list_all isWhiteSpace l"

definition noBlankLine :: "string \<Rightarrow> bool" where
  "noBlankLine s = (\<not> list_ex isBlankLine (splitLines s))"

text \<open>
  What the visitors keep true of the registry: every name ends in \<^verbatim>\<open>$\<close>, so every entry is
  truthy.
\<close>

definition registryOk :: "Registry \<Rightarrow> bool" where
  "registryOk rs = (\<forall>i n. rs i = Some n \<longrightarrow> endsWith n ''$'')"

subsection \<open>An example file\<close>

text \<open>
  A small checker and file for the concrete instances below: a plain arrow function
  (\<^verbatim>\<open>const print = (msg) => msg;\<close>), a function marked with the sentinel, \<^verbatim>\<open>undefined\<close>, the
  union of \<^verbatim>\<open>undefined\<close> and the function, the member \<^verbatim>\<open>Red\<close> of an enum, \<^verbatim>\<open>number\<close>, and an
  instance of a class that is named \<^verbatim>\<open>toString\<close>. \<open>exampleRedent\<close> is what \<^verbatim>\<open>redent\<close> does
  to a text of one line: it takes the leading blanks and tabs off when a character other
  than white space follows them, and puts the indent in front unless the line is white
  space only.
\<close>

definition TypeFlags_Intersection :: "32 word" where "TypeFlags_Intersection = 2097152"

datatype TypeId = TFunction | TNoSerialize | TUndefined | TUnion | TEnumMember | TNumber | TClass

instance TypeId :: finite
proof
  have "(UNIV :: TypeId set) \<subseteq> {TFunction, TNoSerialize, TUndefined, TUnion, TEnumMember, TNumber, TClass}"
  proof
    fix x :: TypeId
    show "x \<in> {TFunction, TNoSerialize, TUndefined, TUnion, TEnumMember, TNumber, TClass}"
      by (cases x) simp_all
  qed
  then show "finite (UNIV :: TypeId set)"
    by (rule finite_subset) simp
qed

definition exampleSource :: string where
  "exampleSource = ''const print = (msg) => msg;''"

definition exampleRedent :: "string \<Rightarrow> nat \<Rightarrow> string" where
  "exampleRedent s n =
     (let r = dropWhile (\<lambda>c. c = CHR '' '' \<or> c = CHR 0x09) s;
          stripped = (if r = [] \<or> isWhiteSpace (hd r) then s else r)
      in if list_all isWhiteSpace stripped then stripped
         else replicate n (CHR '' '') @ stripped)"

definition exampleContext :: RuleContext where
  "exampleContext = \<lparr>sourceText = exampleSource, redent = exampleRedent\<rparr>"

definition functionSymbol :: tsSymbol where
  "functionSymbol = \<lparr>name = ''__function'', declarations = Some [\<lparr>pos = 13, dend = 26\<rparr>],
     valueDeclaration = Some \<lparr>pos = 13, dend = 26\<rparr>\<rparr>"

definition sentinelSymbol :: tsSymbol where
  "sentinelSymbol = \<lparr>name = ''__no_serialize__'', declarations = None, valueDeclaration = None\<rparr>"

definition enumMemberSymbol :: tsSymbol where
  "enumMemberSymbol = \<lparr>name = ''Red'', declarations = Some [\<lparr>pos = 0, dend = 3\<rparr>],
     valueDeclaration = Some \<lparr>pos = 0, dend = 3\<rparr>\<rparr>"

definition classSymbol :: tsSymbol where
  "classSymbol = \<lparr>name = ''toString'', declarations = Some [\<lparr>pos = 0, dend = 17\<rparr>],
     valueDeclaration = Some \<lparr>pos = 0, dend = 17\<rparr>\<rparr>"

definition plainType :: "TypeId tsType" where
  "plainType = \<lparr>flags = 0, symbol = None, getProperty = (\<lambda>n. None), getProperties = [],
     getCallSignatures = 0, isUnion = False, isUnionOrIntersection = False, types = [],
     isClass = False\<rparr>"

definition exampleTypes :: "TypeId \<Rightarrow> TypeId tsType" where
  "exampleTypes t =
     (case t of
        TFunction \<Rightarrow> plainType\<lparr>flags := TypeFlags_Object, symbol := Some functionSymbol,
                       getCallSignatures := 1\<rparr>
      | TNoSerialize \<Rightarrow> plainType\<lparr>flags := TypeFlags_Intersection,
                       getProperty := (\<lambda>n. if n = ''__no_serialize__'' then Some sentinelSymbol else None),
                       getProperties := [sentinelSymbol], getCallSignatures := 1,
                       isUnionOrIntersection := True\<rparr>
      | TUndefined \<Rightarrow> plainType\<lparr>flags := TypeFlags_Undefined\<rparr>
      | TUnion \<Rightarrow> plainType\<lparr>flags := TypeFlags_Union, isUnion := True,
                       isUnionOrIntersection := True, types := [TUndefined, TFunction]\<rparr>
      | TEnumMember \<Rightarrow> plainType\<lparr>flags := TypeFlags_EnumLiteral OR TypeFlags_NumberLiteral,
                       symbol := Some enumMemberSymbol\<rparr>
      | TNumber \<Rightarrow> plainType\<lparr>flags := TypeFlags_Number\<rparr>
      | TClass \<Rightarrow> plainType\<lparr>flags := TypeFlags_Object, symbol := Some classSymbol,
                       isClass := True\<rparr>)"

definition exampleChecker :: "TypeId TypeChecker" where
  "exampleChecker =
     \<lparr>typeObject = exampleTypes,
      getTypeAtLocation = (\<lambda>n. if tsNodeId n = 7 then TFunction else if tsNodeId n = 2 then TNoSerialize
         else if tsNodeId n = 3 then TUnion else if tsNodeId n = 4 then TEnumMember
         else if tsNodeId n = 5 then TNumber else if tsNodeId n = 6 then TClass else TUndefined),
      typeToString = (\<lambda>t. ''T''),
      getElementTypeOfArrayType = (\<lambda>t. None),
      isTupleType = (\<lambda>t. False),
      getTypeArguments = (\<lambda>t. []),
      getTypeOfSymbolAtLocation = (\<lambda>s n. TUndefined)\<rparr>"

definition exampleNode :: "nat \<Rightarrow> tsNode" where
  "exampleNode i = \<lparr>tsNodeId = i, isIdentifier = True, nodeText = (if i = 7 then ''print'' else ''x'')\<rparr>"

definition exampleIdent :: "nat \<Rightarrow> Identifier" where
  "exampleIdent i = \<lparr>nodeId = i, identName = (if i = 7 then ''print'' else ''x''), parent = None\<rparr>"

definition exampleOptions :: DetectorOptions where
  "exampleOptions = \<lparr>allowAny = True\<rparr>"

text \<open>
  The scopes of the example: the module, the closure passed to \<^verbatim>\<open>component$\<close> and, inside it,
  the closure passed to \<^verbatim>\<open>useTask$\<close>; the two closures are registered. The node 7 is an
  identifier \<^verbatim>\<open>print\<close> of the function type, the nodes 2 to 6 are identifiers of the other
  types, and every other node is of the type \<^verbatim>\<open>undefined\<close>.
\<close>

definition moduleScope :: Scope where
  "moduleScope = Scope 10 ''module'' None"

definition componentScope :: Scope where
  "componentScope = Scope 11 ''function'' (Some moduleScope)"

definition taskScope :: Scope where
  "taskScope = Scope 12 ''function'' (Some componentScope)"

definition exampleRegistry :: Registry where
  "exampleRegistry = [11 \<mapsto> ''component$'', 12 \<mapsto> ''useTask$'']"

definition exampleServices :: "TypeId Services" where
  "exampleServices = \<lparr>ruleContext = exampleContext, typeChecker = exampleChecker,
     esTreeNodeToTSNodeMap = exampleNode, acquire = (\<lambda>i. None), detectorOptions = exampleOptions\<rparr>"

text \<open>
  A reference to \<^verbatim>\<open>print\<close> in the task closure, for a declaration in the scope \<open>D\<close> and a
  parent node \<open>p\<close> of the identifier.
\<close>

definition exampleReference :: "Scope \<Rightarrow> ParentNode option \<Rightarrow> Reference" where
  "exampleReference D p =
     \<lparr>resolved = Some \<lparr>defs = [\<lparr>defType = ''Variable''\<rparr>], scope = Some D\<rparr>,
      refFrom = taskScope,
      refIdentifier = \<lparr>nodeId = 7, identName = ''print'', parent = p\<rparr>\<rparr>"

definition assignmentTo :: "nat \<Rightarrow> ParentNode" where
  "assignmentTo i = \<lparr>parentType = ''AssignmentExpression'', left = Some i\<rparr>"

text \<open>The attribute \<^verbatim>\<open>onClick$={x}\<close> for the identifier node \<open>i\<close>.\<close>

definition exampleAttribute :: "nat \<Rightarrow> string \<Rightarrow> JSXAttribute" where
  "exampleAttribute i x =
     \<lparr>attrName = JSXIdentifier ''onClick$'',
      attrValue = Some (JSXExpressionContainer \<lparr>exprId = i, exprType = ''Identifier'', exprName = x\<rparr>)\<rparr>"

section \<open>Facts\<close>

subsection \<open>Facts about the classifier\<close>

text \<open>
  The returns of the classifier one by one, then the cycle guard: the classifier and the
  walk \<open>dfs\<close> visit the same types and agree on capturable, and a walk from the empty set
  answers capturable exactly when no type that it can come to fails.
\<close>

declare isTypeCapturable_rec.simps [simp del]

declare dfs.simps [simp del]

lemma flag_values [simp]:
  "TypeFlags_Object AND TypeFlags_Unknown = 0"
  "TypeFlags_Object AND TypeFlags_Any = 0"
  "TypeFlags_Object AND TypeFlags_ESSymbolLike = 0"
  "TypeFlags_Object AND TypeFlags_Enum = 0"
  "TypeFlags_Object AND TypeFlags_Object \<noteq> 0"
  by (simp_all add: TypeFlags_Object_def TypeFlags_Unknown_def TypeFlags_Any_def
        TypeFlags_ESSymbolLike_def TypeFlags_Enum_def)

lemma sentinel_rec:
  "t \<notin> seen \<Longrightarrow> getProperty (typeObject checker t) ''__no_serialize__'' \<noteq> None \<Longrightarrow>
   isTypeCapturable_rec ctx checker t node opts level seen = (Inr None, insert t seen)"
  by (subst isTypeCapturable_rec.simps) (simp add: Let_def)

lemma function_rec:
  assumes "t \<notin> seen" and "reachesCallCheck opts (typeObject checker t)"
    and "0 < getCallSignatures (typeObject checker t)"
    and "symbol (typeObject checker t) = Some symb"
  shows "isTypeCapturable_rec ctx checker t node opts level seen =
     (if name symb = ''PropFnInterface'' then (Inr None, insert t seen)
      else (Inr (Some (mkReason checker t (functionReason ctx symb node level))), insert t seen))"
  using assms
  by (subst isTypeCapturable_rec.simps) (simp add: Let_def reachesCallCheck_def isTypeQRL_def)

lemma union_rec:
  assumes "t \<notin> seen" and "reachesCallCheck opts (typeObject checker t)"
    and "getCallSignatures (typeObject checker t) = 0"
    and "isUnion (typeObject checker t)"
  shows "isTypeCapturable_rec ctx checker t node opts level seen =
     subTypesCapturable ctx checker (types (typeObject checker t)) node opts (level + 1) (insert t seen)"
  using assms
  by (subst isTypeCapturable_rec.simps) (simp add: Let_def reachesCallCheck_def isTypeQRL_def)

lemma enum_flag_rec:
  assumes "t \<notin> seen" and "getProperty (typeObject checker t) ''__no_serialize__'' = None"
    and "flags (typeObject checker t) AND TypeFlags_Unknown = 0"
    and "allowAny opts \<or> flags (typeObject checker t) AND TypeFlags_Any = 0"
    and "flags (typeObject checker t) AND TypeFlags_ESSymbolLike = 0"
    and "flags (typeObject checker t) AND TypeFlags_Enum \<noteq> 0"
  shows "isTypeCapturable_rec ctx checker t node opts level seen =
     (Inr (Some (mkReason checker t ''is an enum, use an string or a number instead'')), insert t seen)"
  using assms by (subst isTypeCapturable_rec.simps) (auto simp add: Let_def)

lemma subTypes_single:
  "subTypesCapturable ctx checker [B] node opts level seen =
   isTypeCapturable_rec ctx checker B node opts level seen"
  by (simp split: prod.splits sum.splits option.splits)

lemma dfsList_single: "dfsList step [a] seen = dfs step a seen"
  by (cases "dfs step a seen") simp

lemma rec_dfs:
  "dfs (typeStep checker node opts) t seen =
     (fst (isTypeCapturable_rec ctx checker t node opts level seen) = Inr None,
      snd (isTypeCapturable_rec ctx checker t node opts level seen))"
  "dfs (typeStep checker node opts) (getTypeOfSymbolAtLocation checker symb node) seen =
     (fst (isSymbolCapturable ctx checker symb node opts level seen) = Inr None,
      snd (isSymbolCapturable ctx checker symb node opts level seen))"
  "dfsList (typeStep checker node opts) ts seen =
     (fst (subTypesCapturable ctx checker ts node opts level seen) = Inr None,
      snd (subTypesCapturable ctx checker ts node opts level seen))"
  "dfsList (typeStep checker node opts) (map (\<lambda>s. getTypeOfSymbolAtLocation checker s node) symbs) seen =
     (fst (propertiesCapturable ctx checker symbs node opts level seen) = Inr None,
      snd (propertiesCapturable ctx checker symbs node opts level seen))"
proof (induct ctx checker t node opts level seen and ctx checker symb node opts level seen
    and ctx checker ts node opts level seen and ctx checker symbs node opts level seen
    rule: isTypeCapturable_rec_isSymbolCapturable_subTypesCapturable_propertiesCapturable.induct)
  case (1 ctx checker t node opts level seen)
  show ?case
  proof (cases "t \<in> seen")
    case True
    then show ?thesis
      by (simp add: isTypeCapturable_rec.simps[of ctx checker t node opts level seen]
            dfs.simps[of _ t seen])
  next
    case False
    note ih = 1(1)[OF False refl refl] 1(2)[OF False refl refl] 1(3)[OF False refl refl]
      1(4)[OF False refl refl]
    show ?thesis
      using False ih
      by (simp add: isTypeCapturable_rec.simps[of ctx checker t node opts level seen]
            dfs.simps[of _ t seen] typeStep_def[of checker node opts t] Let_def dfsList_single
            del: not_None_eq split: option.split)
  qed
next
  case (2 ctx checker symb node opts level seen)
  then show ?case by simp
next
  case (3 ctx checker node opts level seen)
  show ?case by simp
next
  case (4 ctx checker subType rest node opts level seen)
  show ?case
  proof (cases "isTypeCapturable_rec ctx checker subType node opts level seen")
    case (Pair r y)
    show ?thesis
    proof (cases r)
      case (Inl e)
      with Pair 4(1) show ?thesis by simp
    next
      case (Inr b)
      show ?thesis
      proof (cases b)
        case None
        from 4(2)[OF Pair[symmetric] Inr None] 4(1) Pair Inr None show ?thesis by simp
      next
        case (Some res)
        with Pair Inr 4(1) show ?thesis by simp
      qed
    qed
  qed
next
  case (5 ctx checker node opts level seen)
  show ?case by simp
next
  case (6 ctx checker symb rest node opts level seen)
  show ?case
  proof (cases "isSymbolCapturable ctx checker symb node opts level seen")
    case (Pair r y)
    show ?thesis
    proof (cases r)
      case (Inl e)
      with Pair 6(1) show ?thesis by (simp del: isSymbolCapturable.simps)
    next
      case (Inr b)
      show ?thesis
      proof (cases b)
        case None
        from 6(2)[OF Pair[symmetric] Inr None] 6(1) Pair Inr None show ?thesis
          by (simp del: isSymbolCapturable.simps)
      next
        case (Some res)
        with Pair Inr 6(1) show ?thesis by (simp del: isSymbolCapturable.simps)
      qed
    qed
  qed
qed

lemma closedIn_mono: "closedIn step S X \<Longrightarrow> S \<subseteq> S' \<Longrightarrow> closedIn step S' X"
  by (fastforce simp add: closedIn_def)

lemma closedIn_Un: "closedIn step S X \<Longrightarrow> closedIn step S Y \<Longrightarrow> closedIn step S (X \<union> Y)"
  by (auto simp add: closedIn_def)

lemma closedIn_subset: "closedIn step S X \<Longrightarrow> Y \<subseteq> X \<Longrightarrow> closedIn step S Y"
  by (auto simp add: closedIn_def)

lemma dfs_sound:
  "dfs step t seen = (True, S) \<Longrightarrow> seen \<subseteq> S \<and> t \<in> S \<and> closedIn step S (S - seen)"
  "dfsList step ts seen = (True, S) \<Longrightarrow> seen \<subseteq> S \<and> set ts \<subseteq> S \<and> closedIn step S (S - seen)"
proof (induct step t seen and step ts seen arbitrary: S and S rule: dfs_dfsList.induct)
  case (1 step t seen)
  show ?case
  proof (cases "t \<in> seen")
    case True
    with 1(2) show ?thesis by (simp add: dfs.simps[of _ t seen] closedIn_def)
  next
    case False
    show ?thesis
    proof (cases "step t")
      case Stop
      with False 1(2) show ?thesis by (auto simp add: dfs.simps[of _ t seen] closedIn_def)
    next
      case Fail
      with False 1(2) show ?thesis by (simp add: dfs.simps[of _ t seen])
    next
      case (Sub ts)
      with False 1(2) have "dfsList step ts (insert t seen) = (True, S)"
        by (simp add: dfs.simps[of _ t seen])
      from 1(1)[OF False Sub this]
      have a: "insert t seen \<subseteq> S" and b: "set ts \<subseteq> S" and c: "closedIn step S (S - insert t seen)"
        by simp_all
      have "closedIn step S {t}"
        using Sub b by (simp add: closedIn_def)
      from closedIn_Un[OF c this] have "closedIn step S (S - seen)"
        by (rule closedIn_subset) auto
      with a show ?thesis by simp
    qed
  qed
next
  case (2 step seen)
  then show ?case by (simp add: closedIn_def)
next
  case (3 step t ts seen)
  obtain ok S1 where d: "dfs step t seen = (ok, S1)" by (cases "dfs step t seen")
  with 3(3) have ok: ok by (cases ok) simp_all
  with d 3(3) have l: "dfsList step ts S1 = (True, S)" by simp
  from 3(1)[of S1] d ok have a: "seen \<subseteq> S1" "t \<in> S1" "closedIn step S1 (S1 - seen)" by simp_all
  from 3(2)[OF d[symmetric] ok l] have b: "S1 \<subseteq> S" "set ts \<subseteq> S" "closedIn step S (S - S1)" by simp_all
  from closedIn_Un[OF closedIn_mono[OF a(3) b(1)] b(3)]
  have "closedIn step S (S - seen)" by (rule closedIn_subset) auto
  with a b show ?case by auto
qed

lemma allOk_step: "allOk step t \<Longrightarrow> step t = Sub ts \<Longrightarrow> m \<in> set ts \<Longrightarrow> allOk step m"
proof -
  assume a: "allOk step t" and s: "step t = Sub ts" and m: "m \<in> set ts"
  have e: "(t, m) \<in> edges step" using s m by (auto simp add: edges_def)
  show "allOk step m"
    unfolding allOk_def
  proof (intro allI impI)
    fix u assume "(m, u) \<in> (edges step)\<^sup>*"
    with e have "(t, u) \<in> (edges step)\<^sup>*" by (rule converse_rtrancl_into_rtrancl)
    with a show "step u \<noteq> Fail" by (simp add: allOk_def)
  qed
qed

lemma dfs_complete:
  "allOk step t \<Longrightarrow> fst (dfs step t seen)"
  "(\<forall>m\<in>set ts. allOk step m) \<Longrightarrow> fst (dfsList step ts seen)"
proof (induct step t seen and step ts seen rule: dfs_dfsList.induct)
  case (1 step t seen)
  show ?case
  proof (cases "t \<in> seen")
    case True
    then show ?thesis by (simp add: dfs.simps[of _ t seen])
  next
    case False
    from 1(2) have nf: "step t \<noteq> Fail" by (simp add: allOk_def)
    show ?thesis
    proof (cases "step t")
      case Stop
      with False show ?thesis by (simp add: dfs.simps[of _ t seen])
    next
      case Fail
      with nf show ?thesis by simp
    next
      case (Sub ts)
      have "\<forall>m\<in>set ts. allOk step m"
        using allOk_step[of step t ts, OF 1(2) Sub] by blast
      from 1(1)[OF False Sub this] False Sub show ?thesis
        by (simp add: dfs.simps[of _ t seen])
    qed
  qed
next
  case (2 step seen)
  show ?case by simp
next
  case (3 step t ts seen)
  obtain ok S1 where d: "dfs step t seen = (ok, S1)" by (cases "dfs step t seen")
  from 3(1) 3(3) d have ok: ok by simp
  from 3(2)[OF d[symmetric] ok] 3(3) have "fst (dfsList step ts S1)" by simp
  with d ok show ?case by simp
qed

lemma dfs_reach:
  assumes "dfs step t {} = (True, S)"
  shows "allOk step t"
proof -
  from dfs_sound(1)[OF assms] have t: "t \<in> S" and c: "closedIn step S S" by simp_all
  have "u \<in> S" if "(t, u) \<in> (edges step)\<^sup>*" for u
    using that
  proof (induct rule: rtrancl_induct)
    case base
    show ?case by (rule t)
  next
    case (step a b)
    then obtain ts where "step a = Sub ts" "b \<in> set ts" by (auto simp add: edges_def)
    with c step(3) show ?case by (auto simp add: closedIn_def)
  qed
  with c show ?thesis by (auto simp add: allOk_def closedIn_def)
qed

lemma dfs_allOk: "fst (dfs step t {}) \<longleftrightarrow> allOk step t"
proof
  assume "fst (dfs step t {})"
  then have "dfs step t {} = (True, snd (dfs step t {}))" by (cases "dfs step t {}") simp
  then show "allOk step t" by (rule dfs_reach)
next
  assume "allOk step t"
  then show "fst (dfs step t {})" by (rule dfs_complete(1))
qed

lemma allOk_Sub:
  assumes "step t = Sub ts"
  shows "allOk step t \<longleftrightarrow> (\<forall>m\<in>set ts. allOk step m)"
proof
  assume "allOk step t"
  then show "\<forall>m\<in>set ts. allOk step m" using allOk_step[of step t ts] assms by blast
next
  assume a: "\<forall>m\<in>set ts. allOk step m"
  show "allOk step t"
    unfolding allOk_def
  proof (intro allI impI)
    fix u assume "(t, u) \<in> (edges step)\<^sup>*"
    then show "step u \<noteq> Fail"
    proof (cases rule: converse_rtranclE)
      case base
      with assms show ?thesis by simp
    next
      case (step m)
      from step(1) assms have "m \<in> set ts" by (auto simp add: edges_def)
      with a step(2) show ?thesis by (auto simp add: allOk_def)
    qed
  qed
qed

lemma isTypeCapturable_allOk:
  "fst (isTypeCapturable ctx checker t node ident opts {}) = Inr None
   \<longleftrightarrow> allOk (typeStep checker node opts) t"
proof -
  have "fst (isTypeCapturable ctx checker t node ident opts {}) = Inr None
      \<longleftrightarrow> fst (isTypeCapturable_rec ctx checker t node opts 0 {}) = Inr None"
    by (auto simp add: isTypeCapturable_def split: prod.splits sum.splits option.splits)
  also have "\<dots> \<longleftrightarrow> fst (dfs (typeStep checker node opts) t {})"
    by (simp add: rec_dfs(1)[of checker node opts t "{}" ctx 0])
  also have "\<dots> \<longleftrightarrow> allOk (typeStep checker node opts) t"
    by (rule dfs_allOk)
  finally show ?thesis .
qed

lemma typeStep_union:
  assumes "reachesCallCheck opts (typeObject checker t)"
    and "getCallSignatures (typeObject checker t) = 0"
    and "isUnion (typeObject checker t)"
  shows "typeStep checker node opts t = Sub (types (typeObject checker t))"
  using assms by (simp add: typeStep_def Let_def reachesCallCheck_def isTypeQRL_def)

lemma union_capturable_iff_members:
  assumes "reachesCallCheck opts (typeObject checker t)"
    and "getCallSignatures (typeObject checker t) = 0"
    and "isUnion (typeObject checker t)"
  shows "fst (isTypeCapturable ctx checker t node ident opts {}) = Inr None
         \<longleftrightarrow> (\<forall>m\<in>set (types (typeObject checker t)).
                fst (isTypeCapturable ctx checker m node ident opts {}) = Inr None)"
  by (simp add: isTypeCapturable_allOk
        allOk_Sub[of "typeStep checker node opts" t, OF typeStep_union[OF assms]])

subsection \<open>Facts about the suggestion text\<close>

text \<open>
  In front of a line that has a character other than white space the expression
  \<^verbatim>\<open>/^\s*$/m\<close> does not match, so the replacement leaves a text without blank lines as it
  is, and \<^verbatim>\<open>getContent\<close> is \<^verbatim>\<open>redent\<close> of the declaration text.
\<close>

lemma splitLines_Cons: "splitLines s = hd (splitLines s) # tl (splitLines s)"
  by (cases s) simp_all

lemma white_prefix:
  "\<not> isBlankLine (hd (splitLines s)) \<Longrightarrow>
     (\<forall>c \<in> set (takeWhile isWhiteSpace s). \<not> isLineTerminator c)
     \<and> drop (length (takeWhile isWhiteSpace s)) s \<noteq> []"
proof (induction s)
  case Nil
  then show ?case by (simp add: isBlankLine_def)
next
  case (Cons c cs)
  show ?case
  proof (cases "isLineTerminator c")
    case True
    with Cons.prems show ?thesis by (simp add: isBlankLine_def)
  next
    case False
    show ?thesis
    proof (cases "isWhiteSpace c")
      case True
      with False Cons.prems have "\<not> isBlankLine (hd (splitLines cs))"
        by (simp add: isBlankLine_def)
      from Cons.IH[OF this] True False show ?thesis by simp
    next
      case False
      then show ?thesis by simp
    qed
  qed
qed

lemma blankMatch_zero:
  assumes "\<not> isBlankLine (hd (splitLines s))"
  shows "blankMatch s = 0"
proof -
  from white_prefix[OF assms]
  have a: "\<forall>c \<in> set (takeWhile isWhiteSpace s). \<not> isLineTerminator c"
    and b: "drop (length (takeWhile isWhiteSpace s)) s \<noteq> []"
    by simp_all
  from a have d: "dropWhile (\<lambda>c. \<not> isLineTerminator c) (rev (takeWhile isWhiteSpace s)) = []"
    by simp
  show ?thesis unfolding blankMatch_def Let_def d using b by simp
qed

lemma replaceBlank_lines:
  "(if atStart then \<not> list_ex isBlankLine (splitLines s)
    else \<not> list_ex isBlankLine (tl (splitLines s))) \<Longrightarrow> replaceBlank atStart s = s"
proof (induction atStart s rule: replaceBlank.induct)
  case (1 atStart)
  show ?case by simp
next
  case (2 atStart c cs)
  show ?case
  proof (cases atStart)
    case True
    with "2.prems" have nb: "\<not> list_ex isBlankLine (splitLines (c # cs))" by simp
    then have h: "\<not> isBlankLine (hd (splitLines (c # cs)))"
      by (metis splitLines_Cons list_ex_Cons_iff)
    then have z: "blankMatch (c # cs) = 0" by (rule blankMatch_zero)
    from h have nl: "\<not> isLineTerminator c" by (auto simp add: isBlankLine_def)
    from z have dr: "drop (blankMatch (c # cs)) (c # cs) = c # cs" by simp
    from nb nl have "if isLineTerminator c then \<not> list_ex isBlankLine (splitLines cs)
       else \<not> list_ex isBlankLine (tl (splitLines cs))" by simp
    from "2.IH"(1)[OF True dr this] True z show ?thesis by simp
  next
    case False
    with "2.prems" have nb: "\<not> list_ex isBlankLine (tl (splitLines (c # cs)))" by simp
    then have "if isLineTerminator c then \<not> list_ex isBlankLine (splitLines cs)
       else \<not> list_ex isBlankLine (tl (splitLines cs))"
      by (simp split: if_splits)
    from "2.IH"(2)[OF False this] False show ?thesis by simp
  qed
qed

lemma replaceBlank_noBlankLine: "noBlankLine s \<Longrightarrow> replaceBlank True s = s"
  using replaceBlank_lines[of True s] by (simp add: noBlankLine_def)

lemma getContent_declarationText:
  "getContent ctx symb =
     (case declarationText ctx symb of
        None \<Rightarrow> []
      | Some s \<Rightarrow> redent ctx (replaceBlank True s) 2)"
  by (simp add: getContent_def declarationText_def split: option.split list.split)

lemma getContent_noBlankLine:
  "declarationText ctx symb = Some s \<Longrightarrow> noBlankLine s \<Longrightarrow> getContent ctx symb = redent ctx s 2"
  by (simp add: getContent_declarationText replaceBlank_noBlankLine)

text \<open>
  \<^verbatim>\<open>canCapture\<close> starts every classification from the empty set, so its verdict is the one of
  the walk: capturable exactly when no type that the walk comes to fails.
\<close>

lemma canCapture_allOk:
  "canCapture ctx checker node ident opts = Inr None
   \<longleftrightarrow> allOk (typeStep checker node opts) (getTypeAtLocation checker node)"
  using isTypeCapturable_allOk[of ctx checker "getTypeAtLocation checker node" node ident opts]
  by (simp add: canCapture_def)

subsection \<open>Facts about the walker\<close>

text \<open>
  The visitors keep \<open>registryOk\<close>, and under it the two upward loops of the walker find the
  same scope.
\<close>

lemma endsWith_nonempty: "endsWith n ''$'' \<Longrightarrow> n \<noteq> []"
  by (auto simp add: endsWith_def)

lemma registryOk_empty: "registryOk Map.empty"
  by (simp add: registryOk_def)

lemma registryOk_CallExpression:
  "registryOk rs \<Longrightarrow> registryOk (CallExpression_visitor services node rs)"
  by (auto simp add: registryOk_def CallExpression_visitor_def split: list.splits option.splits)

lemma registryOk_JSXAttribute:
  "registryOk rs \<Longrightarrow> registryOk (fst (JSXAttribute_visitor services node rs))"
  by (auto simp add: registryOk_def JSXAttribute_visitor_def Let_def
        split: list.splits option.splits JSXValue.splits JSXName.splits if_splits)

lemma findDollarScope_registryOk:
  "registryOk rs \<Longrightarrow>
   findDollarScope rs s = map_option (\<lambda>b. (b, the (rs (scopeId b)))) (findOwnerDeclared rs s)"
proof (induction s)
  case (Scope i ty up)
  have t: "truthy (rs i) \<longleftrightarrow> rs i \<noteq> None"
    using Scope.prems endsWith_nonempty by (cases "rs i") (auto simp add: truthy_def registryOk_def)
  show ?case
  proof (cases up)
    case None
    then show ?thesis by (simp add: t)
  next
    case (Some u)
    with Scope show ?thesis by (simp add: t)
  qed
qed

lemma walkReference_inside:
  assumes "registryOk rs"
    and "resolved ref = Some v" and "scope v = Some D"
    and "variableType v \<noteq> Some ''Type''" and "variableType v \<noteq> Some ''ImportBinding''"
    and "findOwnerDeclared rs (refFrom ref) = Some B"
  shows "walkReference services rs ref =
     (if scopeType D = ''global'' \<or> scopeType D = ''module'' then ([], None)
      else if map_option scopeId (findOwnerDeclared rs D) \<noteq> Some (scopeId B)
      then reportCrossing services ref (the (rs (scopeId B)))
      else ([], None))"
  using assms by (simp add: walkReference_def findDollarScope_registryOk)

subsection \<open>Facts about the example\<close>

text \<open>
  The projections of the example, the content that \<^verbatim>\<open>getContent\<close> makes of the declaration of
  \<^verbatim>\<open>print\<close>, and two texts with blank lines: the replacement empties a line of white space
  and leaves an empty line where it is.
\<close>

lemma example_flags [simp]:
  "TypeFlags_Object \<noteq> 0"
  "TypeFlags_Intersection AND TypeFlags_Any = 0"
  "TypeFlags_Undefined AND TypeFlags_Any = 0"
  "TypeFlags_Undefined AND TypeFlags_Unknown = 0"
  "TypeFlags_Undefined AND TypeFlags_ESSymbolLike = 0"
  "TypeFlags_Undefined AND TypeFlags_Enum = 0"
  "TypeFlags_Undefined AND TypeFlags_Object = 0"
  "TypeFlags_Union AND TypeFlags_Any = 0"
  "TypeFlags_Union AND TypeFlags_Unknown = 0"
  "TypeFlags_Union AND TypeFlags_ESSymbolLike = 0"
  "TypeFlags_Union AND TypeFlags_Enum = 0"
  "TypeFlags_Number AND TypeFlags_Any = 0"
  "TypeFlags_Number AND TypeFlags_Unknown = 0"
  "TypeFlags_Number AND TypeFlags_ESSymbolLike = 0"
  "TypeFlags_Number AND TypeFlags_Enum = 0"
  "TypeFlags_Number AND TypeFlags_Object = 0"
  "TypeFlags_Number AND (TypeFlags_Undefined OR TypeFlags_Null) = 0"
  "(TypeFlags_EnumLiteral OR TypeFlags_NumberLiteral) AND TypeFlags_Any = 0"
  "(TypeFlags_EnumLiteral OR TypeFlags_NumberLiteral) AND TypeFlags_Unknown = 0"
  "(TypeFlags_EnumLiteral OR TypeFlags_NumberLiteral) AND TypeFlags_ESSymbolLike = 0"
  "(TypeFlags_EnumLiteral OR TypeFlags_NumberLiteral) AND TypeFlags_Enum = 0"
  "(TypeFlags_EnumLiteral OR TypeFlags_NumberLiteral) AND TypeFlags_Object = 0"
  "(TypeFlags_EnumLiteral OR TypeFlags_NumberLiteral) AND TypeFlags_EnumLike \<noteq> 0"
  by (simp_all add: TypeFlags_Intersection_def TypeFlags_Any_def TypeFlags_Undefined_def
        TypeFlags_Unknown_def TypeFlags_ESSymbolLike_def TypeFlags_Enum_def TypeFlags_Object_def
        TypeFlags_Union_def TypeFlags_Number_def TypeFlags_Null_def TypeFlags_EnumLiteral_def
        TypeFlags_NumberLiteral_def TypeFlags_EnumLike_def)

lemma exampleChecker_simps [simp]:
  "typeObject exampleChecker = exampleTypes"
  "getTypeAtLocation exampleChecker n =
     (if tsNodeId n = 7 then TFunction else if tsNodeId n = 2 then TNoSerialize
      else if tsNodeId n = 3 then TUnion else if tsNodeId n = 4 then TEnumMember
      else if tsNodeId n = 5 then TNumber else if tsNodeId n = 6 then TClass else TUndefined)"
  "typeToString exampleChecker t = ''T''"
  "getElementTypeOfArrayType exampleChecker t = None"
  "isTupleType exampleChecker t = False"
  "getTypeArguments exampleChecker t = []"
  "getTypeOfSymbolAtLocation exampleChecker sy n = TUndefined"
  by (simp_all add: exampleChecker_def)

lemma exampleNode_simps [simp]:
  "tsNodeId (exampleNode i) = i"
  "isIdentifier (exampleNode i)"
  "nodeText (exampleNode i) = (if i = 7 then ''print'' else ''x'')"
  by (simp_all add: exampleNode_def)

lemma exampleIdent_simps [simp]:
  "nodeId (exampleIdent i) = i"
  "identName (exampleIdent i) = (if i = 7 then ''print'' else ''x'')"
  "parent (exampleIdent i) = None"
  by (simp_all add: exampleIdent_def)

lemma exampleOptions_simps [simp]: "allowAny exampleOptions"
  by (simp add: exampleOptions_def)

lemma exampleTypes_simps [simp]:
  "exampleTypes TFunction = plainType\<lparr>flags := TypeFlags_Object, symbol := Some functionSymbol,
                       getCallSignatures := 1\<rparr>"
  "exampleTypes TNoSerialize = plainType\<lparr>flags := TypeFlags_Intersection,
                       getProperty := (\<lambda>n. if n = ''__no_serialize__'' then Some sentinelSymbol else None),
                       getProperties := [sentinelSymbol], getCallSignatures := 1,
                       isUnionOrIntersection := True\<rparr>"
  "exampleTypes TUndefined = plainType\<lparr>flags := TypeFlags_Undefined\<rparr>"
  "exampleTypes TUnion = plainType\<lparr>flags := TypeFlags_Union, isUnion := True,
                       isUnionOrIntersection := True, types := [TUndefined, TFunction]\<rparr>"
  "exampleTypes TEnumMember = plainType\<lparr>flags := TypeFlags_EnumLiteral OR TypeFlags_NumberLiteral,
                       symbol := Some enumMemberSymbol\<rparr>"
  "exampleTypes TNumber = plainType\<lparr>flags := TypeFlags_Number\<rparr>"
  "exampleTypes TClass = plainType\<lparr>flags := TypeFlags_Object, symbol := Some classSymbol,
                       isClass := True\<rparr>"
  by (simp_all add: exampleTypes_def)

lemma plainType_simps [simp]:
  "flags plainType = 0" "symbol plainType = None" "getProperty plainType n = None"
  "getProperties plainType = []" "getCallSignatures plainType = 0" "\<not> isUnion plainType"
  "\<not> isUnionOrIntersection plainType" "types plainType = []" "\<not> isClass plainType"
  by (simp_all add: plainType_def)

lemma symbol_simps [simp]:
  "name functionSymbol = ''__function''"
  "name classSymbol = ''toString''"
  "name enumMemberSymbol = ''Red''"
  by (simp_all add: functionSymbol_def classSymbol_def enumMemberSymbol_def)


lemma replaceBlank_example:
  "replaceBlank True (''a'' @ LF @ ''  '' @ LF @ LF @ ''b'') = ''a'' @ LF @ LF @ ''b''"
  "replaceBlank True (''a'' @ LF @ LF @ ''b'') = ''a'' @ LF @ LF @ ''b''"
  by (simp_all add: blankMatch_def isWhiteSpace_def isLineTerminator_def LF_def)

lemma exampleServices_simps [simp]:
  "ruleContext exampleServices = exampleContext"
  "typeChecker exampleServices = exampleChecker"
  "esTreeNodeToTSNodeMap exampleServices = exampleNode"
  "acquire exampleServices i = None"
  "detectorOptions exampleServices = exampleOptions"
  by (simp_all add: exampleServices_def)

lemma registryOk_example: "registryOk exampleRegistry"
  by (simp add: registryOk_def exampleRegistry_def endsWith_def)

lemma example_owner [simp]:
  "findOwnerDeclared exampleRegistry taskScope = Some taskScope"
  "findOwnerDeclared exampleRegistry componentScope = Some componentScope"
  "findOwnerDeclared exampleRegistry moduleScope = None"
  by (simp_all add: exampleRegistry_def taskScope_def componentScope_def moduleScope_def)

lemma exampleReference_simps [simp]:
  "resolved (exampleReference D p) = Some \<lparr>defs = [\<lparr>defType = ''Variable''\<rparr>], scope = Some D\<rparr>"
  "refFrom (exampleReference D p) = taskScope"
  "refIdentifier (exampleReference D p) = \<lparr>nodeId = 7, identName = ''print'', parent = p\<rparr>"
  by (simp_all add: exampleReference_def)

lemma canCapture_print:
  "canCapture exampleContext exampleChecker (exampleNode 7) ident exampleOptions =
     Inr (Some (mkReason exampleChecker TFunction
        (functionReason exampleContext functionSymbol (exampleNode 7) 0)))"
  by (subst canCapture_def, subst isTypeCapturable_def, subst isTypeCapturable_rec.simps)
     (simp add: isTypeQRL_def Let_def mkReason_def truthy_def)

lemma stale_seen_masks_failure:
  "fst (isTypeCapturable_rec exampleContext exampleChecker TFunction (exampleNode 7) exampleOptions 0
         {TFunction}) = Inr None"
  by (subst isTypeCapturable_rec.simps) simp

section \<open>The claims\<close>



text \<open>
  Claim C2, as stated, fails: the function type of the example that carries the sentinel
  property has a call signature, has no symbol named \<^verbatim>\<open>PropFnInterface\<close>, carries no brand
  and is not \<^verbatim>\<open>any\<close>, and it is capturable.
\<close>

theorem callable_sentinel_counterexample:
  "0 < getCallSignatures (typeObject exampleChecker TNoSerialize)
   \<and> symbol (typeObject exampleChecker TNoSerialize) = None
   \<and> \<not> isTypeQRL (typeObject exampleChecker TNoSerialize)
   \<and> canCapture exampleContext exampleChecker (exampleNode 2) (exampleIdent 2) exampleOptions = Inr None"
  by (simp add: canCapture_def isTypeCapturable_def sentinel_rec isTypeQRL_def)

text \<open>
  Claim C2, amended. A type with a call signature that has not been visited, that gets as
  far as the test of call signatures (no sentinel, none of the flags unknown, symbol or
  enum, no brand and not \<^verbatim>\<open>any\<close>) and whose symbol is there and not named
  \<^verbatim>\<open>PropFnInterface\<close> is not capturable, with the reason that functions are not
  serializable; at depth 0 with an identifier node the reason goes on with the suggestion
  that wraps the content of the symbol in \<^verbatim>\<open>const x = $(...);\<close>. The content is empty when the
  symbol has no declaration; when the text of the file between the offsets of the first
  declaration has no blank line, the content is that text, handed to \<^verbatim>\<open>redent\<close> with 2.
\<close>

theorem function_not_capturable:
  assumes "t \<notin> seen" and "reachesCallCheck opts (typeObject checker t)"
    and "0 < getCallSignatures (typeObject checker t)"
    and "symbol (typeObject checker t) = Some symb"
    and "name symb \<noteq> ''PropFnInterface''"
  shows "isTypeCapturable_rec ctx checker t node opts level seen =
     (Inr (Some \<lparr>rtype = t, typeStr = typeToString checker t, location = None,
          reason = ''is a function, which is not serializable'' @
            (if level = 0 \<and> isIdentifier node
             then ''.'' @ LF @ ''Did you mean to wrap it in '' @ backtick @ ''$()'' @ backtick @ ''?''
                  @ LF @ LF @ ''const '' @ nodeText node @ '' = $('' @ LF @ getContent ctx symb @ LF @ '');''
                  @ LF
             else [])\<rparr>), insert t seen)
     \<and> (case declarationText ctx symb of
          None \<Rightarrow> getContent ctx symb = []
        | Some s \<Rightarrow> noBlankLine s \<longrightarrow> getContent ctx symb = redent ctx s 2)"
proof
  show "isTypeCapturable_rec ctx checker t node opts level seen =
     (Inr (Some \<lparr>rtype = t, typeStr = typeToString checker t, location = None,
          reason = ''is a function, which is not serializable'' @
            (if level = 0 \<and> isIdentifier node
             then ''.'' @ LF @ ''Did you mean to wrap it in '' @ backtick @ ''$()'' @ backtick @ ''?''
                  @ LF @ LF @ ''const '' @ nodeText node @ '' = $('' @ LF @ getContent ctx symb @ LF @ '');''
                  @ LF
             else [])\<rparr>), insert t seen)"
    using assms by (simp add: function_rec mkReason_def functionReason_def Let_def)
  show "case declarationText ctx symb of
          None \<Rightarrow> getContent ctx symb = []
        | Some s \<Rightarrow> noBlankLine s \<longrightarrow> getContent ctx symb = redent ctx s 2"
    by (auto simp add: getContent_declarationText replaceBlank_noBlankLine split: option.split)
qed

theorem function_not_capturable_witness:
  "declarationText exampleContext functionSymbol = Some '' (msg) => msg''
   \<and> noBlankLine '' (msg) => msg''
   \<and> getContent exampleContext functionSymbol = exampleRedent '' (msg) => msg'' 2
   \<and> canCapture exampleContext exampleChecker (exampleNode 7) (exampleIdent 7) exampleOptions =
     Inr (Some \<lparr>rtype = TFunction, typeStr = ''T'', location = None,
       reason = ''is a function, which is not serializable.'' @ LF
         @ ''Did you mean to wrap it in '' @ backtick @ ''$()'' @ backtick @ ''?'' @ LF @ LF
         @ ''const print = $('' @ LF @ ''  (msg) => msg'' @ LF @ '');'' @ LF\<rparr>)"
proof -
  have a: "TFunction \<notin> {}" by simp
  have b: "reachesCallCheck exampleOptions (typeObject exampleChecker TFunction)"
    by (simp add: reachesCallCheck_def isTypeQRL_def)
  have c: "0 < getCallSignatures (typeObject exampleChecker TFunction)"
    by simp
  have d: "symbol (typeObject exampleChecker TFunction) = Some functionSymbol"
    by simp
  have e: "name functionSymbol \<noteq> ''PropFnInterface''"
    by (simp add: functionSymbol_def)
  have f: "declarationText exampleContext functionSymbol = Some '' (msg) => msg''"
    by (simp add: declarationText_def functionSymbol_def exampleContext_def exampleSource_def slice_def)
  have g: "noBlankLine '' (msg) => msg''"
    by (simp add: noBlankLine_def isBlankLine_def isLineTerminator_def isWhiteSpace_def)
  have h: "exampleRedent '' (msg) => msg'' 2 = ''  (msg) => msg''"
    by (simp add: exampleRedent_def isWhiteSpace_def numeral_2_eq_2)
  from function_not_capturable[OF a b c d e, of exampleContext "exampleNode 7" 0] f g h
  show ?thesis
    by (simp add: canCapture_def isTypeCapturable_def truthy_def exampleContext_def)
qed

text \<open>
  Claim C3. For a crossing reference whose identifier is the left-hand side of an assignment
  expression the report \<^verbatim>\<open>mutableIdentifier\<close> is made first, whatever \<^verbatim>\<open>canCapture\<close> returns
  (an exception included); \<^verbatim>\<open>canCapture\<close> still runs, and when it returns a reason the report
  \<^verbatim>\<open>referencesOutside\<close> follows, so the reference has two reports.
\<close>

theorem mutation_reported:
  assumes "registryOk rs"
    and "resolved ref = Some v" and "scope v = Some D"
    and "variableType v \<noteq> Some ''Type''" and "variableType v \<noteq> Some ''ImportBinding''"
    and "findOwnerDeclared rs (refFrom ref) = Some B"
    and "scopeType D \<noteq> ''global''" and "scopeType D \<noteq> ''module''"
    and "map_option scopeId (findOwnerDeclared rs D) \<noteq> Some (scopeId B)"
    and "parent (refIdentifier ref) = Some p"
    and "parentType p = ''AssignmentExpression''"
    and "left p = Some (nodeId (refIdentifier ref))"
  shows "walkReference services rs ref =
     (case canCapture (ruleContext services) (typeChecker services)
             (esTreeNodeToTSNodeMap services (nodeId (refIdentifier ref))) (refIdentifier ref)
             (detectorOptions services) of
        Inl e \<Rightarrow> ([mutableIdentifierReport (refIdentifier ref) (the (rs (scopeId B)))], Some e)
      | Inr None \<Rightarrow> ([mutableIdentifierReport (refIdentifier ref) (the (rs (scopeId B)))], None)
      | Inr (Some r) \<Rightarrow>
          ([mutableIdentifierReport (refIdentifier ref) (the (rs (scopeId B))),
            referencesOutsideReport (refIdentifier ref) (the (rs (scopeId B))) r], None))"
  using assms(7-12)
  by (simp add: walkReference_inside[OF assms(1-6)] reportCrossing_def Let_def
        split: sum.splits option.splits)

theorem mutation_reported_witness:
  "map messageId (fst (walkReference exampleServices exampleRegistry
       (exampleReference componentScope (Some (assignmentTo 7)))))
     = [mutableIdentifier, referencesOutside]"
proof -
  have "walkReference exampleServices exampleRegistry (exampleReference componentScope (Some (assignmentTo 7)))
      = (case canCapture (ruleContext exampleServices) (typeChecker exampleServices)
             (esTreeNodeToTSNodeMap exampleServices
                (nodeId (refIdentifier (exampleReference componentScope (Some (assignmentTo 7))))))
             (refIdentifier (exampleReference componentScope (Some (assignmentTo 7))))
             (detectorOptions exampleServices) of
        Inl e \<Rightarrow> ([mutableIdentifierReport (refIdentifier (exampleReference componentScope (Some (assignmentTo 7))))
                     (the (exampleRegistry (scopeId taskScope)))], Some e)
      | Inr None \<Rightarrow> ([mutableIdentifierReport (refIdentifier (exampleReference componentScope (Some (assignmentTo 7))))
                     (the (exampleRegistry (scopeId taskScope)))], None)
      | Inr (Some r) \<Rightarrow>
          ([mutableIdentifierReport (refIdentifier (exampleReference componentScope (Some (assignmentTo 7))))
              (the (exampleRegistry (scopeId taskScope))),
            referencesOutsideReport (refIdentifier (exampleReference componentScope (Some (assignmentTo 7))))
              (the (exampleRegistry (scopeId taskScope))) r], None))"
    by (rule mutation_reported[of exampleRegistry _
          "\<lparr>defs = [\<lparr>defType = ''Variable''\<rparr>], scope = Some componentScope\<rparr>" componentScope taskScope
          "assignmentTo 7" exampleServices])
       (simp_all add: registryOk_example variableType_def assignmentTo_def,
        simp_all add: taskScope_def componentScope_def)
  then show ?thesis
    by (simp add: canCapture_print mutableIdentifierReport_def referencesOutsideReport_def)
qed

text \<open>
  Claim C4 at the attribute \<^verbatim>\<open>onClick$={count}\<close> with \<^verbatim>\<open>count\<close> of type \<^verbatim>\<open>number\<close>: the type is
  no union, has no symbol, and the visitor ends with a \<^verbatim>\<open>TypeError\<close> (it reads
  \<^verbatim>\<open>type.symbol.name\<close>) instead of a report. The same at \<^verbatim>\<open>onClick$={undefined}\<close>.
\<close>

theorem jsx_handler_throws:
  "\<not> isUnionOrIntersection (typeObject exampleChecker (getTypeAtLocation exampleChecker (exampleNode 5)))
   \<and> symbol (typeObject exampleChecker (getTypeAtLocation exampleChecker (exampleNode 5))) = None
   \<and> JSXAttribute_visitor exampleServices (exampleAttribute 5 ''count'') Map.empty
       = (Map.empty, [], Some TypeError)
   \<and> JSXAttribute_visitor exampleServices (exampleAttribute 8 ''undefined'') Map.empty
       = (Map.empty, [], Some TypeError)"
  by (simp add: JSXAttribute_visitor_def exampleAttribute_def endsWith_def isTypeQRL_def Let_def)

text \<open>
  Claim C5. A type that has the property \<^verbatim>\<open>__no_serialize__\<close> is capturable at the top level
  (recursion depth 0, an empty set of visited types), whatever its flags, properties, call
  signatures and symbol are: no other field of the type is read.
\<close>

theorem sentinel_capturable:
  assumes "getProperty (typeObject checker t) ''__no_serialize__'' \<noteq> None"
  shows "isTypeCapturable ctx checker t node ident opts {} = (Inr None, {t})
         \<and> (getTypeAtLocation checker node = t \<longrightarrow> canCapture ctx checker node ident opts = Inr None)"
  using assms by (simp add: isTypeCapturable_def canCapture_def sentinel_rec)

theorem sentinel_capturable_witness:
  "getProperty (typeObject exampleChecker TNoSerialize) ''__no_serialize__'' \<noteq> None
   \<and> 0 < getCallSignatures (typeObject exampleChecker TNoSerialize)
   \<and> canCapture exampleContext exampleChecker (exampleNode 2) (exampleIdent 2) exampleOptions = Inr None"
proof -
  have h: "getProperty (typeObject exampleChecker TNoSerialize) ''__no_serialize__'' \<noteq> None"
    by (simp add: exampleChecker_def exampleTypes_def plainType_def)
  have n: "getTypeAtLocation exampleChecker (exampleNode 2) = TNoSerialize"
    by (simp add: exampleChecker_def exampleNode_def)
  from sentinel_capturable[OF h, of exampleContext "exampleNode 2" "exampleIdent 2" exampleOptions] n h
  show ?thesis by (simp add: exampleChecker_def exampleTypes_def plainType_def)
qed

text \<open>
  Claim C6, as stated, fails: the first member of the union of the example is capturable,
  and the classification of the union at the top level differs from the classification of
  the second member at the top level (the reason of the member has the suggestion, the
  reason of the union has not).
\<close>

theorem union_member_counterexample:
  "isUnion (typeObject exampleChecker TUnion)
   \<and> types (typeObject exampleChecker TUnion) = [TUndefined, TFunction]
   \<and> fst (isTypeCapturable exampleContext exampleChecker TUndefined (exampleNode 7) (exampleIdent 7)
          exampleOptions {}) = Inr None
   \<and> fst (isTypeCapturable exampleContext exampleChecker TUnion (exampleNode 7) (exampleIdent 7)
          exampleOptions {})
       \<noteq> fst (isTypeCapturable exampleContext exampleChecker TFunction (exampleNode 7) (exampleIdent 7)
          exampleOptions {})"
proof -
  have u: "isTypeCapturable_rec exampleContext exampleChecker TUndefined (exampleNode 7) exampleOptions l s
      = (Inr None, insert TUndefined s)" if "TUndefined \<notin> s" for l s
    using that by (subst isTypeCapturable_rec.simps) (simp add: isTypeQRL_def Let_def)
  have f: "isTypeCapturable_rec exampleContext exampleChecker TFunction (exampleNode 7) exampleOptions l s
      = (Inr (Some (mkReason exampleChecker TFunction
           (functionReason exampleContext functionSymbol (exampleNode 7) l))), insert TFunction s)"
    if "TFunction \<notin> s" for l s
    using that by (subst isTypeCapturable_rec.simps) (simp add: isTypeQRL_def Let_def)
  have un: "isTypeCapturable_rec exampleContext exampleChecker TUnion (exampleNode 7) exampleOptions 0 {}
      = (Inr (Some (mkReason exampleChecker TFunction
           (functionReason exampleContext functionSymbol (exampleNode 7) 1))),
         {TFunction, TUndefined, TUnion})"
    by (subst isTypeCapturable_rec.simps) (simp add: isTypeQRL_def Let_def u f)
  show ?thesis
    by (simp add: isTypeCapturable_def u f un mkReason_def functionReason_def truthy_def
          Let_def)
qed

text \<open>
  Claim C6, amended. For a union of two members that gets as far as the union test (no
  sentinel, none of the flags unknown, symbol or enum, no brand, not \<^verbatim>\<open>any\<close>, no call
  signature): when it has not been visited, it is classified as its first member is, one
  level deeper and with the union added to the visited set, if that member fails, and
  otherwise as the second member is, one level deeper and with the visited set the first
  member left; and at the top level it is capturable exactly when each of the two members
  is capturable at the top level.
\<close>

theorem union_first_failure:
  assumes "reachesCallCheck opts (typeObject checker t)"
    and "getCallSignatures (typeObject checker t) = 0"
    and "isUnion (typeObject checker t)"
    and "types (typeObject checker t) = [A, B]"
  shows "(t \<notin> seen \<longrightarrow>
            isTypeCapturable_rec ctx checker t node opts level seen =
              (case isTypeCapturable_rec ctx checker A node opts (level + 1) (insert t seen) of
                 (Inr None, seen') \<Rightarrow> isTypeCapturable_rec ctx checker B node opts (level + 1) seen'
               | (Inr (Some result), seen') \<Rightarrow> (Inr (Some result), seen')
               | (Inl e, seen') \<Rightarrow> (Inl e, seen')))
         \<and> (fst (isTypeCapturable ctx checker t node ident opts {}) = Inr None
              \<longleftrightarrow> fst (isTypeCapturable ctx checker A node ident opts {}) = Inr None
                \<and> fst (isTypeCapturable ctx checker B node ident opts {}) = Inr None)"
proof
  show "t \<notin> seen \<longrightarrow>
            isTypeCapturable_rec ctx checker t node opts level seen =
              (case isTypeCapturable_rec ctx checker A node opts (level + 1) (insert t seen) of
                 (Inr None, seen') \<Rightarrow> isTypeCapturable_rec ctx checker B node opts (level + 1) seen'
               | (Inr (Some result), seen') \<Rightarrow> (Inr (Some result), seen')
               | (Inl e, seen') \<Rightarrow> (Inl e, seen'))"
  proof
    assume n: "t \<notin> seen"
    have eq: "isTypeCapturable_rec ctx checker t node opts level seen =
        subTypesCapturable ctx checker [A, B] node opts (level + 1) (insert t seen)"
      using union_rec[OF n assms(1-3)] assms(4) by simp
    show "isTypeCapturable_rec ctx checker t node opts level seen =
              (case isTypeCapturable_rec ctx checker A node opts (level + 1) (insert t seen) of
                 (Inr None, seen') \<Rightarrow> isTypeCapturable_rec ctx checker B node opts (level + 1) seen'
               | (Inr (Some result), seen') \<Rightarrow> (Inr (Some result), seen')
               | (Inl e, seen') \<Rightarrow> (Inl e, seen'))"
      unfolding eq
      by (cases "isTypeCapturable_rec ctx checker A node opts (level + 1) (insert t seen)")
         (auto simp add: subTypes_single simp del: subTypesCapturable.simps(2)
                simp add: subTypesCapturable.simps(2)[of _ _ A "[B]"]
                split: sum.splits option.splits)
  qed
  show "fst (isTypeCapturable ctx checker t node ident opts {}) = Inr None
              \<longleftrightarrow> fst (isTypeCapturable ctx checker A node ident opts {}) = Inr None
                \<and> fst (isTypeCapturable ctx checker B node ident opts {}) = Inr None"
    using union_capturable_iff_members[OF assms(1-3), of ctx node ident] assms(4) by simp
qed

theorem union_first_failure_witness:
  "fst (isTypeCapturable_rec exampleContext exampleChecker TUnion (exampleNode 7) exampleOptions 0 {})
     = Inr (Some \<lparr>rtype = TFunction, typeStr = ''T'', location = None,
          reason = ''is a function, which is not serializable''\<rparr>)
   \<and> fst (isTypeCapturable exampleContext exampleChecker TUndefined (exampleNode 7) (exampleIdent 7)
          exampleOptions {}) = Inr None
   \<and> fst (isTypeCapturable exampleContext exampleChecker TFunction (exampleNode 7) (exampleIdent 7)
          exampleOptions {}) \<noteq> Inr None
   \<and> fst (isTypeCapturable exampleContext exampleChecker TUnion (exampleNode 7) (exampleIdent 7)
          exampleOptions {}) \<noteq> Inr None"
proof -
  have b: "reachesCallCheck exampleOptions (typeObject exampleChecker TUnion)"
    by (simp add: reachesCallCheck_def isTypeQRL_def)
  have c: "getCallSignatures (typeObject exampleChecker TUnion) = 0"
    by simp
  have d: "isUnion (typeObject exampleChecker TUnion)"
    by simp
  have e: "types (typeObject exampleChecker TUnion) = [TUndefined, TFunction]"
    by simp
  have u: "isTypeCapturable_rec exampleContext exampleChecker TUndefined (exampleNode 7) exampleOptions l s
      = (Inr None, insert TUndefined s)" if "TUndefined \<notin> s" for l s
    using that by (subst isTypeCapturable_rec.simps) (simp add: isTypeQRL_def Let_def)
  have f: "isTypeCapturable_rec exampleContext exampleChecker TFunction (exampleNode 7) exampleOptions l s
      = (Inr (Some (mkReason exampleChecker TFunction
           (functionReason exampleContext functionSymbol (exampleNode 7) l))), insert TFunction s)"
    if "TFunction \<notin> s" for l s
    using that by (subst isTypeCapturable_rec.simps) (simp add: isTypeQRL_def Let_def)
  have mu: "fst (isTypeCapturable exampleContext exampleChecker TUndefined (exampleNode 7) (exampleIdent 7)
          exampleOptions {}) = Inr None"
    by (simp add: isTypeCapturable_def u)
  have mf: "fst (isTypeCapturable exampleContext exampleChecker TFunction (exampleNode 7) (exampleIdent 7)
          exampleOptions {}) \<noteq> Inr None"
    by (simp add: isTypeCapturable_def f)
  from union_first_failure[OF b c d e, where seen = "{}" and ctx = exampleContext
      and node = "exampleNode 7" and level = 0 and ident = "exampleIdent 7"]
  show ?thesis
    by (simp add: u f mu mf mkReason_def functionReason_def)
qed

text \<open>
  Claim C7 at the type of an enum member. TypeScript gives the type of \<^verbatim>\<open>Color.Red\<close> the flags
  \<^verbatim>\<open>EnumLiteral | NumberLiteral\<close>; the classifier tests the bit \<^verbatim>\<open>TypeFlags.Enum\<close> only,
  so the type falls through every test and is capturable.
\<close>

theorem enum_member_capturable:
  "flags (typeObject exampleChecker TEnumMember) AND TypeFlags_EnumLike \<noteq> 0
   \<and> getProperty (typeObject exampleChecker TEnumMember) ''__no_serialize__'' = None
   \<and> canCapture exampleContext exampleChecker (exampleNode 4) (exampleIdent 4) exampleOptions = Inr None"
  by (subst canCapture_def, subst isTypeCapturable_def, subst isTypeCapturable_rec.simps)
     (simp add: isTypeQRL_def Let_def)



text \<open>
  Claim C10. An object type that gets as far as the allow-list and whose symbol is named
  like a property of \<^verbatim>\<open>Object.prototype\<close> is capturable, whether or not it is a class
  instance and whatever its properties are, although the name is none of the seven keys
  of \<^verbatim>\<open>ALLOWED_CLASSES\<close>.
\<close>

theorem prototype_name_capturable:
  assumes "t \<notin> seen" and "reachesAllowList checker opts t"
    and "symbol (typeObject checker t) = Some symb"
    and "name symb \<in> set Object_prototype_keys"
  shows "isTypeCapturable_rec ctx checker t node opts level seen = (Inr None, insert t seen)
         \<and> name symb \<notin> set ALLOWED_CLASSES_own"
proof
  have "ALLOWED_CLASSES (name symb)"
    using assms(4) by (simp add: ALLOWED_CLASSES_def)
  with assms(1-3) show "isTypeCapturable_rec ctx checker t node opts level seen = (Inr None, insert t seen)"
    by (subst isTypeCapturable_rec.simps)
       (simp add: Let_def reachesAllowList_def reachesCallCheck_def isTypeQRL_def getTypesOfTupleType_def)
  show "name symb \<notin> set ALLOWED_CLASSES_own"
    using assms(4) by (auto simp add: Object_prototype_keys_def ALLOWED_CLASSES_own_def)
qed

theorem prototype_name_capturable_witness:
  "isClass (typeObject exampleChecker TClass)
   \<and> name classSymbol = ''toString''
   \<and> canCapture exampleContext exampleChecker (exampleNode 6) (exampleIdent 6) exampleOptions = Inr None"
proof -
  have a: "TClass \<notin> {}" by simp
  have b: "reachesAllowList exampleChecker exampleOptions TClass"
    by (simp add: reachesAllowList_def reachesCallCheck_def isTypeQRL_def)
  have c: "symbol (typeObject exampleChecker TClass) = Some classSymbol"
    by simp
  have d: "name classSymbol \<in> set Object_prototype_keys"
    by (simp add: Object_prototype_keys_def)
  from prototype_name_capturable[OF a b c d, of exampleContext "exampleNode 6" 0]
  show ?thesis
    by (simp add: canCapture_def isTypeCapturable_def 
          )
qed

end
